theory Spec2Isabelle
  imports Main "HOL-Library.Sublist"
begin

section \<open>Python values\<close>

text \<open>
  A Python \<open>str\<close> is a sequence of Unicode code points, and \<open>len\<close> counts code points:
  the ellipsis U+2026 is one character. A string is therefore a list of code points.
\<close>

type_synonym pystr = "nat list"

definition lit :: "string \<Rightarrow> pystr" where
  "lit s = map of_char s"

definition ELLIPSIS :: nat where
  "ELLIPSIS = 8230"

text \<open>\<open>sep.join(xs)\<close>.\<close>

fun join :: "pystr \<Rightarrow> pystr list \<Rightarrow> pystr" where
  "join sep [] = []"
| "join sep [x] = x"
| "join sep (x # y # ys) = x @ sep @ join sep (y # ys)"

text \<open>
  A Python \<open>float\<close> is an IEEE double: a sign, a mantissa and a binary exponent, an
  infinity with its sign, or NaN. The program never computes with one.
\<close>

datatype pyfloat = Finite bool nat int | Infinity bool | NaN

text \<open>
  What \<open>resp.json()\<close> returns: \<open>None\<close>, a \<open>bool\<close>, an \<open>int\<close>, a \<open>float\<close>, a \<open>str\<close>,
  a \<open>list\<close> or a \<open>dict\<close> with string keys, in insertion order. A key is looked up at its
  first entry.
\<close>

datatype json =
    JNull
  | JBool bool
  | JInt int
  | JFloat pyfloat
  | JStr pystr
  | JList "json list"
  | JDict "(pystr \<times> json) list"

text \<open>The exceptions the program raises or meets; \<open>Inl\<close> of a result is a raised exception.\<close>

datatype exn =
    RuntimeError pystr
  | TypeError
  | AttributeError
  | KeyError
  | IndexError
  | FileNotFoundError
  | UnicodeDecodeError
  | UnicodeEncodeError
  | OSError
  | RequestException pystr

definition sbind :: "exn + 'a \<Rightarrow> ('a \<Rightarrow> exn + 'b) \<Rightarrow> exn + 'b" where
  "sbind m f = (case m of Inl e \<Rightarrow> Inl e | Inr x \<Rightarrow> f x)"

text \<open>\<open>isinstance(x, dict)\<close> and \<open>isinstance(x, list)\<close>.\<close>

fun is_dict :: "json \<Rightarrow> bool" where
  "is_dict (JDict kvs) = True"
| "is_dict j = False"

fun is_list :: "json \<Rightarrow> bool" where
  "is_list (JList xs) = True"
| "is_list j = False"

text \<open>
  \<open>key in x\<close> for a string \<open>key\<close>: a key of a dict, an element of a list, a substring of
  a string; anything else is not iterable.
\<close>

fun py_in :: "pystr \<Rightarrow> json \<Rightarrow> exn + bool" where
  "py_in key (JDict kvs) = Inr (key \<in> fst ` set kvs)"
| "py_in key (JList xs) = Inr (JStr key \<in> set xs)"
| "py_in key (JStr s) = Inr (sublist key s)"
| "py_in key j = Inl TypeError"

text \<open>\<open>x[key]\<close> for a string \<open>key\<close>: only a dict can be indexed by a string.\<close>

fun py_getitem :: "json \<Rightarrow> pystr \<Rightarrow> exn + json" where
  "py_getitem (JDict kvs) key = (case map_of kvs key of Some v \<Rightarrow> Inr v | None \<Rightarrow> Inl KeyError)"
| "py_getitem j key = Inl TypeError"

text \<open>\<open>x.get(key, default)\<close>: only a dict has the method.\<close>

fun py_get :: "json \<Rightarrow> pystr \<Rightarrow> json \<Rightarrow> exn + json" where
  "py_get (JDict kvs) key dflt = Inr (case map_of kvs key of Some v \<Rightarrow> v | None \<Rightarrow> dflt)"
| "py_get j key dflt = Inl AttributeError"

text \<open>\<open>len(x)\<close>: defined for strings, lists and dicts.\<close>

fun py_len :: "json \<Rightarrow> exn + nat" where
  "py_len (JStr s) = Inr (length s)"
| "py_len (JList xs) = Inr (length xs)"
| "py_len (JDict kvs) = Inr (length (remdups (map fst kvs)))"
| "py_len j = Inl TypeError"

text \<open>
  \<open>x[:n]\<close>: a prefix of a string or of a list. A dict cannot be sliced (a \<open>TypeError\<close>, and
  a \<open>KeyError\<close> from Python 3.12 on, where a slice is hashable).
\<close>

fun py_slice_to :: "nat \<Rightarrow> json \<Rightarrow> exn + json" where
  "py_slice_to n (JStr s) = Inr (JStr (take n s))"
| "py_slice_to n (JList xs) = Inr (JList (take n xs))"
| "py_slice_to n j = Inl TypeError"

text \<open>\<open>x + s\<close> for a string \<open>s\<close>: only a string can be extended by a string.\<close>

fun py_add_str :: "json \<Rightarrow> pystr \<Rightarrow> exn + json" where
  "py_add_str (JStr a) s = Inr (JStr (a @ s))"
| "py_add_str j s = Inl TypeError"

text \<open>Truth value of an object, as \<open>if x\<close>, \<open>x or y\<close> and \<open>not x\<close> take it.\<close>

fun truthy :: "json \<Rightarrow> bool" where
  "truthy JNull = False"
| "truthy (JBool b) = b"
| "truthy (JInt i) = (i \<noteq> 0)"
| "truthy (JFloat (Finite s m e)) = (m \<noteq> 0)"
| "truthy (JFloat f) = True"
| "truthy (JStr s) = (s \<noteq> [])"
| "truthy (JList xs) = (xs \<noteq> [])"
| "truthy (JDict kvs) = (kvs \<noteq> [])"

section \<open>Response processor (\<open>src/processor.py\<close>)\<close>

text \<open>
  \<open>summarize_choice\<close>. The rendering \<open>json.dumps\<close> of the standard library is the
  parameter \<open>dumps\<close>. The first function is the \<open>if\<close>/\<open>elif\<close>/\<open>else\<close> that binds
  \<open>content\<close>, the second the \<open>return\<close> line.
\<close>

definition choice_content :: "(json \<Rightarrow> pystr) \<Rightarrow> json \<Rightarrow> exn + json" where
  "choice_content dumps choice =
     sbind (py_in (lit ''message'') choice) (\<lambda>has_message.
     sbind (if has_message
            then sbind (py_getitem choice (lit ''message'')) (\<lambda>m. Inr (is_dict m))
            else Inr False) (\<lambda>message_is_dict.
     if message_is_dict
     then sbind (py_getitem choice (lit ''message'')) (\<lambda>m. py_get m (lit ''content'') (JStr []))
     else sbind (py_in (lit ''text'') choice) (\<lambda>has_text.
          if has_text then py_get choice (lit ''text'') (JStr [])
          else Inr (JStr (take 400 (dumps choice))))))"

definition preview_of :: "json \<Rightarrow> exn + json" where
  "preview_of content =
     sbind (py_len content) (\<lambda>n.
     if n \<le> 400 then Inr content
     else sbind (py_slice_to 400 content) (\<lambda>head. py_add_str head [ELLIPSIS]))"

definition summarize_choice :: "(json \<Rightarrow> pystr) \<Rightarrow> json \<Rightarrow> exn + json" where
  "summarize_choice dumps choice = sbind (choice_content dumps choice) preview_of"

section \<open>Python library\<close>

text \<open>\<open>str\<close> of an \<open>int\<close>: its decimal digits.\<close>

fun str_nat :: "nat \<Rightarrow> pystr" where
  "str_nat n = (if n < 10 then [48 + n] else str_nat (n div 10) @ [48 + n mod 10])"

declare str_nat.simps [simp del]

definition str_int :: "int \<Rightarrow> pystr" where
  "str_int i = (if i < 0 then 45 # str_nat (nat (- i)) else str_nat (nat i))"

text \<open>
  What the Python library gives and this repository does not define: the renderings of
  \<open>json\<close> (\<open>dumps\<close>, and with \<open>indent=2\<close>), \<open>repr\<close> of
  a value that is not a string, the text of \<open>type(x)\<close>, the message of a built-in
  exception, \<open>Path.expanduser().resolve()\<close>, and the text of a path as \<open>pathlib\<close>
  writes it: \<open>path_str x\<close> is \<open>str(Path(x))\<close> and \<open>path_join a b\<close> is \<open>str(Path(a) / b)\<close>.
  \<open>dump_file\<close> gives what \<open>json.dump\<close>, with \<open>indent=2\<close> and \<open>ensure_ascii=False\<close>, puts
  into a file opened as UTF-8 text: the bytes that reach the file and the exception raised,
  if any.
\<close>

record pylib =
  dumps :: "json \<Rightarrow> pystr"
  dumps_indent :: "json \<Rightarrow> pystr"
  dump_file :: "json \<Rightarrow> nat list \<times> exn option"
  py_repr :: "json \<Rightarrow> pystr"
  type_text :: "json \<Rightarrow> pystr"
  exn_text :: "exn \<Rightarrow> pystr"
  resolve :: "pystr \<Rightarrow> pystr"
  path_str :: "pystr \<Rightarrow> pystr"
  path_join :: "pystr \<Rightarrow> pystr \<Rightarrow> pystr"

text \<open>\<open>str(x)\<close>, which an f-string and \<open>print\<close> apply: a string is itself.\<close>

definition py_str :: "pylib \<Rightarrow> json \<Rightarrow> pystr" where
  "py_str lib x = (case x of JStr s \<Rightarrow> s | JInt i \<Rightarrow> str_int i | _ \<Rightarrow> py_repr lib x)"

text \<open>\<open>str(e)\<close>: the message the exception was raised with.\<close>

definition str_exn :: "pylib \<Rightarrow> exn \<Rightarrow> pystr" where
  "str_exn lib e =
     (case e of RuntimeError m \<Rightarrow> m | RequestException m \<Rightarrow> m | _ \<Rightarrow> exn_text lib e)"

section \<open>Text of the environment file\<close>

text \<open>\<open>str.isspace\<close> of one code point: the white space \<open>str.strip\<close> removes.\<close>

definition is_space :: "nat \<Rightarrow> bool" where
  "is_space c \<longleftrightarrow>
     (9 \<le> c \<and> c \<le> 13) \<or> (28 \<le> c \<and> c \<le> 32) \<or> c = 133 \<or> c = 160 \<or> c = 5760 \<or>
     (8192 \<le> c \<and> c \<le> 8202) \<or> c = 8232 \<or> c = 8233 \<or> c = 8239 \<or> c = 8287 \<or> c = 12288"

definition strip :: "pystr \<Rightarrow> pystr" where
  "strip s = rev (dropWhile is_space (rev (dropWhile is_space s)))"

text \<open>The line boundaries of \<open>str.splitlines\<close>.\<close>

definition is_linebreak :: "nat \<Rightarrow> bool" where
  "is_linebreak c \<longleftrightarrow>
     (10 \<le> c \<and> c \<le> 13) \<or> (28 \<le> c \<and> c \<le> 30) \<or> c = 133 \<or> c = 8232 \<or> c = 8233"

text \<open>
  Reading in text mode translates \<open>\r\n\<close> and \<open>\r\<close> to \<open>\n\<close> (universal newlines);
  \<open>str.splitlines\<close> then cuts at every line boundary, \<open>\r\n\<close> counting as one, and gives
  no empty last line.
\<close>

fun universal_newlines :: "pystr \<Rightarrow> pystr" where
  "universal_newlines [] = []"
| "universal_newlines [c] = (if c = 13 then [10] else [c])"
| "universal_newlines (c # d # cs) =
     (if c = 13 \<and> d = 10 then 10 # universal_newlines cs
      else if c = 13 then 10 # universal_newlines (d # cs)
      else c # universal_newlines (d # cs))"

fun splitlines_from :: "pystr \<Rightarrow> pystr \<Rightarrow> pystr list" where
  "splitlines_from cur [] = (if cur = [] then [] else [cur])"
| "splitlines_from cur [c] = (if is_linebreak c then [cur] else [cur @ [c]])"
| "splitlines_from cur (c # d # cs) =
     (if c = 13 \<and> d = 10 then cur # splitlines_from [] cs
      else if is_linebreak c then cur # splitlines_from [] (d # cs)
      else splitlines_from (cur @ [c]) (d # cs))"

definition splitlines :: "pystr \<Rightarrow> pystr list" where
  "splitlines s = splitlines_from [] s"

section \<open>UTF-8\<close>

text \<open>
  The codec \<open>utf-8\<close> with strict errors. A code point can be encoded when it is a Unicode
  scalar value: below U+110000 and not a surrogate. Decoding refuses a byte that cannot
  start a character, a missing or wrong continuation byte, an overlong form, a surrogate
  and a code point beyond U+10FFFF.
\<close>

definition valid_scalar :: "nat \<Rightarrow> bool" where
  "valid_scalar c \<longleftrightarrow> c < 55296 \<or> (57344 \<le> c \<and> c < 1114112)"

definition encodable :: "pystr \<Rightarrow> bool" where
  "encodable s \<longleftrightarrow> (\<forall>c \<in> set s. valid_scalar c)"

definition utf8_char :: "nat \<Rightarrow> nat list" where
  "utf8_char c =
     (if c < 128 then [c]
      else if c < 2048 then [192 + c div 64, 128 + c mod 64]
      else if c < 65536 then [224 + c div 4096, 128 + c div 64 mod 64, 128 + c mod 64]
      else [240 + c div 262144, 128 + c div 4096 mod 64, 128 + c div 64 mod 64, 128 + c mod 64])"

definition utf8_encode :: "pystr \<Rightarrow> nat list option" where
  "utf8_encode s = (if encodable s then Some (concat (map utf8_char s)) else None)"

definition cont :: "nat \<Rightarrow> bool" where
  "cont b \<longleftrightarrow> 128 \<le> b \<and> b < 192"

fun utf8_decode :: "nat list \<Rightarrow> pystr option" where
  "utf8_decode [] = Some []"
| "utf8_decode (b # bs) =
     (if b < 128 then map_option ((#) b) (utf8_decode bs)
      else if 194 \<le> b \<and> b < 224 then
        (case bs of
           b1 # r \<Rightarrow>
             if cont b1 then map_option ((#) ((b - 192) * 64 + (b1 - 128))) (utf8_decode r)
             else None
         | _ \<Rightarrow> None)
      else if 224 \<le> b \<and> b < 240 then
        (case bs of
           b1 # b2 # r \<Rightarrow>
             (let c = (b - 224) * 4096 + (b1 - 128) * 64 + (b2 - 128) in
              if cont b1 \<and> cont b2 \<and> 2048 \<le> c \<and> valid_scalar c
              then map_option ((#) c) (utf8_decode r) else None)
         | _ \<Rightarrow> None)
      else if 240 \<le> b \<and> b < 245 then
        (case bs of
           b1 # b2 # b3 # r \<Rightarrow>
             (let c = (b - 240) * 262144 + (b1 - 128) * 4096 + (b2 - 128) * 64 + (b3 - 128) in
              if cont b1 \<and> cont b2 \<and> cont b3 \<and> 65536 \<le> c \<and> valid_scalar c
              then map_option ((#) c) (utf8_decode r) else None)
         | _ \<Rightarrow> None)
      else None)"

section \<open>Trust bundle builder (\<open>scripts/setup_certs.py\<close>)\<close>

text \<open>
  The file system. \<open>locate\<close> gives the file a path names, so two paths name one file
  exactly when \<open>locate\<close> agrees on them; \<open>files\<close> gives the bytes of every regular file
  that exists; \<open>blocked\<close> holds the paths whose parent directory neither exists nor can
  be made. What a path names does not change. The state also holds the lines printed so
  far.
\<close>

record sys =
  locate :: "pystr \<Rightarrow> pystr"
  files :: "pystr \<rightharpoonup> nat list"
  blocked :: "pystr set"
  stdout :: "pystr list"

definition print :: "pystr \<Rightarrow> sys \<Rightarrow> sys" where
  "print line s = s\<lparr>stdout := stdout s @ [line]\<rparr>"

definition file_at :: "sys \<Rightarrow> pystr \<Rightarrow> nat list option" where
  "file_at s p = files s (locate s p)"

definition put_file :: "pystr \<Rightarrow> nat list \<Rightarrow> sys \<Rightarrow> sys" where
  "put_file p b s = s\<lparr>files := (files s)(locate s p \<mapsto> b)\<rparr>"

definition exists_path :: "sys \<Rightarrow> pystr \<Rightarrow> bool" where
  "exists_path s p \<longleftrightarrow> file_at s p \<noteq> None"

text \<open>
  \<open>Path(p).read_text(encoding="utf-8")\<close> and \<open>Path(p).write_text(t, encoding="utf-8")\<close>.
  Writing opens the file, which empties it, and then encodes the text: a text that cannot
  be encoded leaves the file empty.
\<close>

definition read_text :: "pystr \<Rightarrow> sys \<Rightarrow> exn + pystr" where
  "read_text p s =
     (case file_at s p of
        None \<Rightarrow> Inl FileNotFoundError
      | Some b \<Rightarrow>
          (case utf8_decode b of
             None \<Rightarrow> Inl UnicodeDecodeError
           | Some t \<Rightarrow> Inr (universal_newlines t)))"

definition write_text :: "pystr \<Rightarrow> pystr \<Rightarrow> sys \<Rightarrow> exn option \<times> sys" where
  "write_text p t s =
     (case utf8_encode t of
        None \<Rightarrow> (Some UnicodeEncodeError, put_file p [] s)
      | Some b \<Rightarrow> (None, put_file p b s))"

definition ENV_PATH :: pystr where
  "ENV_PATH = lit ''.env''"

definition BACKUP_SUFFIX :: pystr where
  "BACKUP_SUFFIX = lit ''.bak''"

text \<open>\<open>backup_env\<close>: \<open>with_name(name + suffix)\<close> appends the suffix to the path.\<close>

definition backup_env :: "pystr \<Rightarrow> sys \<Rightarrow> pystr option \<times> sys" where
  "backup_env env_path s =
     (case file_at s env_path of
        Some content \<Rightarrow>
          (let bak = env_path @ BACKUP_SUFFIX in
           if \<not> exists_path s bak
           then (Some bak, print (lit ''Backup created: '' @ bak) (put_file bak content s))
           else (Some bak, print (lit ''Backup already exists: '' @ bak) s))
      | None \<Rightarrow> (None, print (lit ''No existing .env to back up.'') s))"

text \<open>
  \<open>write_combined_bundle\<close>. The three files are opened before anything is read, and opening
  the output for writing empties it; so the reads see an output file that holds only what
  the buffered writer has passed on so far. When the custom certificate is read that is
  the first \<open>flushed\<close> bytes of what was written, a number the buffering decides.
  \<open>certifi_where\<close> is the path \<open>certifi.where()\<close> returns.
\<close>

definition write_combined_bundle ::
  "pystr \<Rightarrow> nat \<Rightarrow> pystr \<Rightarrow> pystr \<Rightarrow> sys \<Rightarrow> exn + (pystr \<times> sys)" where
  "write_combined_bundle certifi_where flushed zscaler_path out_path s =
     (if out_path \<in> blocked s then Inl OSError
      else if \<not> exists_path s certifi_where then Inl FileNotFoundError
      else if \<not> exists_path s zscaler_path then Inl FileNotFoundError
      else
        (let opened = put_file out_path [] s;
             public = (case file_at opened certifi_where of Some b \<Rightarrow> b | None \<Rightarrow> []);
             written = public @ [10];
             on_disk = put_file out_path (take flushed written) opened;
             custom = (case file_at on_disk zscaler_path of Some b \<Rightarrow> b | None \<Rightarrow> []);
             closed = put_file out_path (written @ custom) s
         in Inr (out_path, print (lit ''Combined bundle written to: '' @ out_path) closed)))"

text \<open>\<open>update_env_file\<close>: the dict \<open>keys_to_set\<close> in insertion order.\<close>

definition keys_to_set :: "pystr \<Rightarrow> (pystr \<times> pystr) list" where
  "keys_to_set out_bundle_path =
     [(lit ''SSL_CERT_FILE'', out_bundle_path), (lit ''REQUESTS_CA_BUNDLE'', out_bundle_path)]"

text \<open>The first \<open>for\<close> loop, with \<open>new_lines\<close> and \<open>found\<close> as accumulators.\<close>

fun env_loop ::
  "(pystr \<times> pystr) list \<Rightarrow> pystr list \<Rightarrow> pystr list \<Rightarrow> pystr set \<Rightarrow> pystr list \<times> pystr set" where
  "env_loop kts [] new_lines found = (new_lines, found)"
| "env_loop kts (line # rest) new_lines found =
     (let stripped = strip line in
      if stripped = [] \<or> prefix (lit ''#'') stripped \<or> 61 \<notin> set line
      then env_loop kts rest (new_lines @ [line]) found
      else
        (let k = takeWhile (\<lambda>c. c \<noteq> 61) line;
             k_name = strip k
         in case map_of kts k_name of
              Some v \<Rightarrow> env_loop kts rest (new_lines @ [k_name @ lit ''='' @ v]) (insert k_name found)
            | None \<Rightarrow> env_loop kts rest (new_lines @ [line]) found))"

text \<open>The second loop: the keys not found are appended.\<close>

fun append_missing :: "(pystr \<times> pystr) list \<Rightarrow> pystr set \<Rightarrow> pystr list \<Rightarrow> pystr list" where
  "append_missing [] found new_lines = new_lines"
| "append_missing ((k, v) # kts) found new_lines =
     append_missing kts found (if k \<notin> found then new_lines @ [k @ lit ''='' @ v] else new_lines)"

definition merged_lines :: "pystr \<Rightarrow> pystr list \<Rightarrow> pystr list" where
  "merged_lines out_bundle_path original_lines =
     (let kts = keys_to_set out_bundle_path;
          looped = env_loop kts original_lines [] {}
      in append_missing kts (snd looped) (fst looped))"

text \<open>The lines read: those of the file when it exists, none otherwise.\<close>

definition read_lines :: "pystr \<Rightarrow> sys \<Rightarrow> exn + pystr list" where
  "read_lines env_path s =
     (if exists_path s env_path
      then sbind (read_text env_path s) (\<lambda>t. Inr (splitlines t))
      else Inr [])"

text \<open>
  \<open>update_env_file\<close>: the result is the exception raised, if any, and the state reached.
\<close>

definition update_env_file :: "pystr \<Rightarrow> pystr \<Rightarrow> sys \<Rightarrow> exn option \<times> sys" where
  "update_env_file out_bundle_path env_path s =
     (let s1 = snd (backup_env env_path s) in
      case read_lines env_path s1 of
        Inl e \<Rightarrow> (Some e, s1)
      | Inr original_lines \<Rightarrow>
          (let new_lines = merged_lines out_bundle_path original_lines;
               w = write_text env_path (join [10] new_lines @ [10]) s1
           in case fst w of
                Some e \<Rightarrow> (Some e, snd w)
              | None \<Rightarrow>
                  (None,
                   print (lit ''.env updated (merged) with keys: ''
                          @ join (lit '', '') (map fst (keys_to_set out_bundle_path))) (snd w))))"

text \<open>
  How a process ends: \<open>main\<close> returns (exit status 0), \<open>SystemExit\<close> is raised with a code,
  or an exception reaches the interpreter, which prints the traceback and exits with 1.
\<close>

datatype outcome = Returned | SystemExit int | Uncaught exn

fun exit_status :: "outcome \<Rightarrow> int" where
  "exit_status Returned = 0"
| "exit_status (SystemExit n) = n"
| "exit_status (Uncaught e) = 1"

text \<open>
  What \<open>setup_certs.py\<close> takes from its surroundings: the working directory, the path of
  the public bundle, the entries of \<open>/mnt/c/Users\<close> when that directory exists, and the
  buffering of the output file.
\<close>

record certs_env =
  cwd :: pystr
  certifi_where :: pystr
  mnt_users :: "pystr list option"
  flushed :: nat

record certs_args =
  zscaler :: "pystr option"
  out :: "pystr option"

definition OUT_DEFAULT :: "pylib \<Rightarrow> certs_env \<Rightarrow> pystr" where
  "OUT_DEFAULT lib env =
     path_join lib (path_join lib (cwd env) (lit ''.certs'')) (lit ''certifi_with_zscaler.pem'')"

fun downloads :: "pylib \<Rightarrow> sys \<Rightarrow> pystr list \<Rightarrow> pystr list" where
  "downloads lib s [] = []"
| "downloads lib s (user # users) =
     (let cand = path_join lib (path_join lib user (lit ''Downloads'')) (lit ''zscaler_root.cer'');
          cand2 = path_join lib (path_join lib user (lit ''Downloads'')) (lit ''zscaler_root.crt'')
      in (if exists_path s cand then [cand] else [])
         @ (if exists_path s cand2 then [cand2] else [])
         @ downloads lib s users)"

definition find_zscaler_candidates :: "pylib \<Rightarrow> certs_env \<Rightarrow> sys \<Rightarrow> pystr list" where
  "find_zscaler_candidates lib env s =
     (let candidates =
            [lit ''/etc/ssl/certs/zscaler_root.pem'',
             lit ''/usr/local/share/ca-certificates/zscaler_root.crt'',
             lit ''/usr/local/share/ca-certificates/zscaler_root.pem'']
            @ (case mnt_users env of Some users \<Rightarrow> downloads lib s users | None \<Rightarrow> [])
      in filter (exists_path s) candidates)"

text \<open>
  \<open>main\<close> of \<open>setup_certs.py\<close>. An option that is absent or empty is false in \<open>if args.x\<close>;
  an option that is given is made a \<open>Path\<close>, and it is the text of that path that is
  looked up, printed and written.
\<close>

definition given :: "pystr option \<Rightarrow> bool" where
  "given a \<longleftrightarrow> a \<noteq> None \<and> a \<noteq> Some []"

definition certs_build :: "certs_env \<Rightarrow> pystr \<Rightarrow> pystr \<Rightarrow> sys \<Rightarrow> exn option \<times> sys" where
  "certs_build env zpath out_path s =
     (case write_combined_bundle (certifi_where env) (flushed env) zpath out_path s of
        Inl e \<Rightarrow> (Some e, s)
      | Inr r \<Rightarrow> update_env_file out_path ENV_PATH (snd r))"

definition certs_main :: "pylib \<Rightarrow> certs_env \<Rightarrow> certs_args \<Rightarrow> sys \<Rightarrow> outcome \<times> sys" where
  "certs_main lib env args s =
     (let out_path = (if given (out args) then path_str lib (the (out args))
                      else OUT_DEFAULT lib env) in
      if given (zscaler args) then
        (let zpath = path_str lib (the (zscaler args)) in
         if \<not> exists_path s zpath
         then (SystemExit 2, print (lit ''Provided zscaler cert does not exist: '' @ zpath) s)
         else (let built = certs_build env zpath out_path s in
               case fst built of
                 Some e \<Rightarrow> (Uncaught e, snd built)
               | None \<Rightarrow> (Returned, snd built)))
      else
        (case find_zscaler_candidates lib env s of
           [] \<Rightarrow>
             (SystemExit 2,
              print (lit ''Searched: /etc/ssl/certs/zscaler_root.pem, /usr/local/share/ca-certificates/, and Windows Downloads (WSL)'')
                (print (lit ''No Zscaler cert found in known locations. Re-run with --zscaler /path/to/zscaler_root.cer'') s))
         | zpath # others \<Rightarrow>
             (let built = certs_build env zpath out_path
                            (print (lit ''Using Zscaler cert: '' @ zpath) s) in
              case fst built of
                Some e \<Rightarrow> (Uncaught e, snd built)
              | None \<Rightarrow>
                  (Returned,
                   print (lit ''Done. .env was backed up to .env.bak (if it existed) and merged safely.'')
                     (snd built)))))"

section \<open>API client (\<open>src/groq_client.py\<close>)\<close>

text \<open>
  An HTTP response as \<open>requests\<close> presents it: \<open>resp.json()\<close> either raises, with the text
  of its exception, or returns the document. \<open>resp.ok\<close> is false exactly for the client
  and server error statuses, 400 to 599.
\<close>

record response =
  status_code :: int
  reason :: pystr
  resp_text :: pystr
  resp_json :: "pystr + json"

definition ok :: "response \<Rightarrow> bool" where
  "ok resp \<longleftrightarrow> \<not> (400 \<le> status_code resp \<and> status_code resp < 600)"

datatype verify = VerifyDefault | VerifyPath pystr

record request =
  url :: pystr
  headers :: "(pystr \<times> pystr) list"
  payload :: json
  timeout :: int
  verify_with :: verify

text \<open>
  The module's surroundings: its three settings, the process environment, the resolved
  path of the project-local bundle when that file exists, and the network, which answers
  a request with a response or raises.
\<close>

record client_env =
  GROQ_API_URL :: pystr
  GROQ_API_KEY :: pystr
  GROQ_MODEL :: pystr
  environ :: "pystr \<rightharpoonup> pystr"
  project_local :: "pystr option"
  post :: "request \<Rightarrow> exn + response"

definition HEADERS :: "client_env \<Rightarrow> (pystr \<times> pystr) list" where
  "HEADERS env =
     [(lit ''Authorization'', lit ''Bearer '' @ GROQ_API_KEY env),
      (lit ''Content-Type'', lit ''application/json''),
      (lit ''User-Agent'', lit ''groq-python-app/1.0'')]"

definition effective_verify_path :: "client_env \<Rightarrow> verify" where
  "effective_verify_path env =
     (let env_verify =
            (if given (environ env (lit ''SSL_CERT_FILE''))
             then environ env (lit ''SSL_CERT_FILE'')
             else environ env (lit ''REQUESTS_CA_BUNDLE''))
      in if given env_verify then VerifyPath (the env_verify)
         else (case project_local env of
                 Some p \<Rightarrow> VerifyPath p
               | None \<Rightarrow> VerifyDefault))"

text \<open>The part of \<open>send_chat\<close> after the response has arrived.\<close>

definition check_response :: "pylib \<Rightarrow> response \<Rightarrow> exn + json" where
  "check_response lib resp =
     (let txt = resp_text resp in
      if \<not> ok resp then
        (let err_json =
               (case resp_json resp of
                  Inr j \<Rightarrow> j
                | Inl e \<Rightarrow>
                    JStr (if txt \<noteq> [] then txt
                          else str_int (status_code resp) @ lit '' '' @ reason resp))
         in Inl (RuntimeError (lit ''Groq API error: '' @ py_str lib err_json)))
      else
        (case resp_json resp of
           Inr j \<Rightarrow> Inr j
         | Inl e \<Rightarrow>
             Inl (RuntimeError
                    (lit ''Failed to parse Groq response as JSON: '' @ e @ lit ''; raw: '' @ txt))))"

text \<open>
  \<open>send_chat\<close>. Its arguments are Python objects, \<open>None\<close> written \<open>JNull\<close>; the callers
  pass what a request body holds.
\<close>

definition send_chat ::
  "pylib \<Rightarrow> client_env \<Rightarrow> json \<Rightarrow> json \<Rightarrow> json \<Rightarrow> json \<Rightarrow> int \<Rightarrow> exn + json" where
  "send_chat lib env messages model temperature max_tokens tmo =
     (let base =
            [(lit ''model'', if truthy model then model else JStr (GROQ_MODEL env)),
             (lit ''messages'', messages),
             (lit ''temperature'', temperature)];
          body = JDict (if max_tokens \<noteq> JNull then base @ [(lit ''max_tokens'', max_tokens)] else base);
          req = \<lparr>url = GROQ_API_URL env, headers = HEADERS env, payload = body,
                 timeout = tmo, verify_with = effective_verify_path env\<rparr>
      in sbind (post env req) (check_response lib))"

section \<open>Response processor, continued\<close>

text \<open>The loop of \<open>process_and_save\<close> over the first three choices, numbered from 1.\<close>

fun print_choices :: "pylib \<Rightarrow> nat \<Rightarrow> json list \<Rightarrow> sys \<Rightarrow> exn option \<times> sys" where
  "print_choices lib i [] s = (None, s)"
| "print_choices lib i (ch # chs) s =
     (case summarize_choice (dumps lib) ch of
        Inl e \<Rightarrow> (Some e, s)
      | Inr preview \<Rightarrow>
          print_choices lib (Suc i) chs
            (print (lit [CHR 0x0A] @ lit ''[Choice '' @ str_nat i @ lit ''] Preview:''
                    @ lit [CHR 0x0A] @ py_str lib preview) s))"

text \<open>
  \<open>process_and_save\<close>: the result is the exception raised, if any, and the state reached.
  A response that is not a dict is reported and then fails at \<open>response.get\<close>; making
  the parent directory and writing the file can fail as well.
\<close>

definition process_and_save :: "pylib \<Rightarrow> json \<Rightarrow> pystr \<Rightarrow> sys \<Rightarrow> exn option \<times> sys" where
  "process_and_save lib resp out_path s =
     (let s1 = print (lit [CHR 0x0A] @ lit ''=== GROQ Response Summary ==='') s in
      case resp of
        JDict kvs \<Rightarrow>
          (let s2 = print (lit ''Top-level keys: '' @ join (lit '', '') (remdups (map fst kvs))) s1;
               choices = (case map_of kvs (lit ''choices'') of Some v \<Rightarrow> v | None \<Rightarrow> JNull);
               shown =
                 (case choices of
                    JList chs \<Rightarrow>
                      print_choices lib 1 (take 3 chs)
                        (print (lit ''Choices: '' @ str_nat (length chs)) s2)
                  | _ \<Rightarrow> (None, s2))
           in case fst shown of
                Some e \<Rightarrow> (Some e, snd shown)
              | None \<Rightarrow>
                  (let usage = (case map_of kvs (lit ''usage'') of Some v \<Rightarrow> v | None \<Rightarrow> JNull);
                       s3 = (if truthy usage
                             then print (dumps_indent lib usage)
                                    (print (lit [CHR 0x0A] @ lit ''Usage:'') (snd shown))
                             else snd shown);
                       s4 = (if lit ''output'' \<in> fst ` set kvs
                             then print (lit [CHR 0x0A] @ lit ''Has 'output' key'') s3 else s3);
                       s5 = (case map_of kvs (lit ''outputs'') of
                               Some v \<Rightarrow>
                                 print (lit [CHR 0x0A] @ lit ''Has 'outputs' key (len=''
                                        @ (case v of JList xs \<Rightarrow> str_nat (length xs) | _ \<Rightarrow> lit ''?'')
                                        @ lit '')'') s4
                             | None \<Rightarrow> s4);
                       out_file = resolve lib out_path;
                       s6 = put_file out_file (fst (dump_file lib resp)) s5
                   in if out_file \<in> blocked s5 then (Some OSError, s5)
                      else case snd (dump_file lib resp) of
                        Some e \<Rightarrow> (Some e, s6)
                      | None \<Rightarrow>
                          (None,
                           print (lit ''=== End summary ==='' @ lit [CHR 0x0A])
                             (print (lit [CHR 0x0A] @ lit ''Full response written to: '' @ out_file)
                                s6))))
      | _ \<Rightarrow>
          (Some AttributeError,
           print (lit ''Top-level response is not an object. Type: '' @ type_text lib resp) s1))"

section \<open>Command-line entry point (\<open>src/main.py\<close>)\<close>

definition DEFAULT_PROMPT :: pystr where
  "DEFAULT_PROMPT = lit ''Explain the importance of fast language models in 3 concise bullet points.''"

definition message :: "pystr \<Rightarrow> json \<Rightarrow> json" where
  "message role content = JDict [(lit ''role'', JStr role), (lit ''content'', content)]"

definition build_messages :: "json \<Rightarrow> json" where
  "build_messages prompt =
     JList [message (lit ''system'') (JStr (lit ''You are a concise, professional assistant.'')),
            message (lit ''user'') prompt]"

text \<open>
  \<open>default_output_path\<close>, called without an argument; \<open>utcnow\<close> is the text
  \<open>datetime.utcnow().isoformat(timespec="seconds")\<close> gives.
\<close>

definition default_output_path :: "pylib \<Rightarrow> client_env \<Rightarrow> pystr \<Rightarrow> pystr" where
  "default_output_path lib env utcnow =
     (let od = (case environ env (lit ''OUTPUT_DIR'') of Some d \<Rightarrow> d | None \<Rightarrow> lit ''outputs'');
          ts = map (\<lambda>c. if c = 58 then 45 else c) utcnow
      in path_join lib od (lit ''groq-response-'' @ ts @ lit ''.json''))"

text \<open>The parsed arguments; \<open>prompt_file\<close> is \<open>--file\<close> and \<open>out_file\<close> is \<open>--out\<close>.\<close>

record cli_args =
  prompt :: "pystr option"
  prompt_file :: "pystr option"
  out_file :: "pystr option"
  temperature :: pyfloat
  max_tokens :: int
  model :: "pystr option"

text \<open>\<open>main\<close>: the prompt is read before the \<open>try\<close> block is entered.\<close>

definition main :: "pylib \<Rightarrow> client_env \<Rightarrow> pystr \<Rightarrow> cli_args \<Rightarrow> sys \<Rightarrow> outcome \<times> sys" where
  "main lib env utcnow args s =
     (case (if given (prompt_file args)
            then sbind (read_text (the (prompt_file args)) s) (\<lambda>txt. Inr (strip txt))
            else Inr (if given (prompt args) then the (prompt args) else DEFAULT_PROMPT)) of
        Inl e \<Rightarrow> (Uncaught e, s)
      | Inr p \<Rightarrow>
          (let messages = build_messages (JStr p);
               mdl = (if given (model args) then JStr (the (model args))
                      else (case environ env (lit ''GROQ_MODEL'') of
                              Some m \<Rightarrow> JStr m
                            | None \<Rightarrow> JNull));
               s1 = print (lit ''Sending request to Groq...'') s
           in case send_chat lib env messages mdl (JFloat (temperature args))
                     (JInt (max_tokens args)) 15 of
                Inl e \<Rightarrow> (SystemExit 2, print (lit ''Error: '' @ str_exn lib e) s1)
              | Inr resp \<Rightarrow>
                  (let out_path = (if given (out_file args) then the (out_file args)
                                   else default_output_path lib env utcnow);
                       saved = process_and_save lib resp out_path s1
                   in case fst saved of
                        Some e \<Rightarrow> (SystemExit 2, print (lit ''Error: '' @ str_exn lib e) (snd saved))
                      | None \<Rightarrow> (Returned, snd saved))))"

section \<open>HTTP front-end (\<open>src/webapp.py\<close>)\<close>

text \<open>\<open>x[0]\<close>.\<close>

fun py_first :: "json \<Rightarrow> exn + json" where
  "py_first (JList (x # xs)) = Inr x"
| "py_first (JList []) = Inl IndexError"
| "py_first (JStr (c # cs)) = Inr (JStr [c])"
| "py_first (JStr []) = Inl IndexError"
| "py_first (JDict kvs) = Inl KeyError"
| "py_first j = Inl TypeError"

text \<open>
  What a view returns: a response with its JSON body and status, or an exception that
  leaves the view.
\<close>

datatype http_result = Reply json int | Unhandled exn

text \<open>The double nearest to 0.2, the default temperature.\<close>

definition FLOAT_0_2 :: pyfloat where
  "FLOAT_0_2 = Finite False 3602879701896397 (- 54)"

text \<open>
  \<open>summarize\<close>: \<open>req\<close> is what \<open>request.get_json(silent=True)\<close> returns, \<open>None\<close> for a body
  that is not JSON.
\<close>

definition summarize_args :: "client_env \<Rightarrow> json \<Rightarrow> exn + (json \<times> json \<times> json \<times> json)" where
  "summarize_args env body =
     sbind (py_get body (lit ''prompt'') (JStr (lit ''No prompt provided''))) (\<lambda>prompt'.
     sbind (py_get body (lit ''temperature'') (JFloat FLOAT_0_2)) (\<lambda>temperature'.
     sbind (py_get body (lit ''max_tokens'') (JInt 800)) (\<lambda>max_tokens'.
     sbind (py_get body (lit ''model'') JNull) (\<lambda>model'.
     Inr (prompt', temperature', max_tokens',
          if truthy model' then model' else JStr (GROQ_MODEL env))))))"

text \<open>The expression that reads the first choice's message content out of the response.\<close>

definition gist_of :: "json \<Rightarrow> exn + json" where
  "gist_of resp =
     sbind (py_get resp (lit ''choices'') (JList [JDict []])) (\<lambda>choices.
     sbind (py_first choices) (\<lambda>first.
     sbind (py_get first (lit ''message'') (JDict [])) (\<lambda>msg.
     sbind (py_get msg (lit ''content'') JNull) (\<lambda>content.
     Inr (if truthy content then content else resp)))))"

definition summarize :: "pylib \<Rightarrow> client_env \<Rightarrow> json \<Rightarrow> http_result" where
  "summarize lib env req =
     (let body = (if truthy req then req else JDict []) in
      case summarize_args env body of
        Inl e \<Rightarrow> Unhandled e
      | Inr (prompt', temperature', max_tokens', model') \<Rightarrow>
          (case sbind (send_chat lib env (build_messages prompt') model' temperature' max_tokens' 15)
                  gist_of of
             Inl e \<Rightarrow>
               Reply (JDict [(lit ''error'', JStr (lit ''Failed to call Groq API'')),
                             (lit ''details'', JStr (str_exn lib e))]) 500
           | Inr summary \<Rightarrow>
               Reply (JDict [(lit ''prompt'', prompt'), (lit ''gist'', summary)]) 200))"

section \<open>Vocabulary of the properties\<close>

text \<open>
  The key \<open>update_env_file\<close> reads from a line: none from a line that is blank, starts
  with \<open>#\<close> or has no \<open>=\<close>, and otherwise the stripped text before the first \<open>=\<close>. A line
  is a managed-key line when that key is one of the two managed keys.
\<close>

definition line_key :: "pystr \<Rightarrow> pystr option" where
  "line_key line =
     (if strip line = [] \<or> prefix (lit ''#'') (strip line) \<or> 61 \<notin> set line then None
      else Some (strip (takeWhile (\<lambda>c. c \<noteq> 61) line)))"

definition MANAGED :: "pystr list" where
  "MANAGED = [lit ''SSL_CERT_FILE'', lit ''REQUESTS_CA_BUNDLE'']"


text \<open>On how many lines a key appears.\<close>

definition occurrences :: "pystr \<Rightarrow> pystr list \<Rightarrow> nat" where
  "occurrences k ls = length (filter (\<lambda>l. line_key l = Some k) ls)"

text \<open>What the first loop makes of one line, the keys it finds, and the lines the second loop adds.\<close>

definition rewrite :: "(pystr \<times> pystr) list \<Rightarrow> pystr \<Rightarrow> pystr" where
  "rewrite kts line =
     (case line_key line of
        None \<Rightarrow> line
      | Some k \<Rightarrow> (case map_of kts k of Some v \<Rightarrow> k @ lit ''='' @ v | None \<Rightarrow> line))"

definition hits :: "(pystr \<times> pystr) list \<Rightarrow> pystr list \<Rightarrow> pystr set" where
  "hits kts ls = {k. k \<in> fst ` set kts \<and> (\<exists>l \<in> set ls. line_key l = Some k)}"

definition appended :: "pystr \<Rightarrow> pystr list \<Rightarrow> pystr list" where
  "appended p ls =
     map (\<lambda>kv. fst kv @ lit ''='' @ snd kv)
       (filter (\<lambda>kv. fst kv \<notin> hits (keys_to_set p) ls) (keys_to_set p))"

text \<open>
  A library for the concrete evaluations below, none of which reaches a rendering: every
  rendering is the empty text and paths resolve to themselves.
\<close>

definition bare_lib :: pylib where
  "bare_lib =
     \<lparr>dumps = (\<lambda>j. []), dumps_indent = (\<lambda>j. []), dump_file = (\<lambda>j. ([], None)),
      py_repr = (\<lambda>j. []), type_text = (\<lambda>j. []), exn_text = (\<lambda>e. []),
      resolve = (\<lambda>p. p), path_str = (\<lambda>p. p), path_join = (\<lambda>a b. a @ [47] @ b)\<rparr>"

text \<open>
  A file system in which every path names its own file, every directory can be made and
  nothing has been printed, and one in which the path \<open>a\<close> names the file of \<open>b\<close>.
\<close>

definition plain_fs :: "(pystr \<rightharpoonup> nat list) \<Rightarrow> sys" where
  "plain_fs f = \<lparr>locate = (\<lambda>p. p), files = f, blocked = {}, stdout = []\<rparr>"

definition linked_fs :: "pystr \<Rightarrow> pystr \<Rightarrow> (pystr \<rightharpoonup> nat list) \<Rightarrow> sys" where
  "linked_fs a b f =
     \<lparr>locate = (\<lambda>p. if p = a then b else p), files = f, blocked = {}, stdout = []\<rparr>"

text \<open>The success range of HTTP statuses: 200 to 299.\<close>

definition success_status :: "response \<Rightarrow> bool" where
  "success_status resp \<longleftrightarrow> 200 \<le> status_code resp \<and> status_code resp < 300"

text \<open>A text without a line boundary.\<close>

definition one_line :: "pystr \<Rightarrow> bool" where
  "one_line t \<longleftrightarrow> (\<forall>c \<in> set t. \<not> is_linebreak c)"

text \<open>Surroundings in which the network answers every request in the same way.\<close>

definition answering :: "(exn + response) \<Rightarrow> client_env" where
  "answering r =
     \<lparr>GROQ_API_URL = lit ''https://api.groq.com/openai/v1/chat/completions'',
      GROQ_API_KEY = lit ''key'', GROQ_MODEL = lit ''openai/gpt-oss-20b'',
      environ = Map.empty, project_local = None, post = (\<lambda>req. r)\<rparr>"

section \<open>Response processor: previews\<close>

lemma preview_of_str:
  "preview_of (JStr s) = Inr (JStr (if length s \<le> 400 then s else take 400 s @ [ELLIPSIS]))"
  by (simp add: preview_of_def sbind_def)

lemma in_keys_map_of: "key \<in> fst ` set kvs \<longleftrightarrow> map_of kvs key \<noteq> None"
  by (simp add: map_of_eq_None_iff)

text \<open>
  The fallback chain on a dict: the content of a message that is a dict (the empty string
  when it has none), else the text field, else the first 400 characters of the rendering.
\<close>

lemma choice_content_dict:
  "choice_content d (JDict kvs) =
     (case map_of kvs (lit ''message'') of
        Some (JDict m) \<Rightarrow> Inr (case map_of m (lit ''content'') of Some v \<Rightarrow> v | None \<Rightarrow> JStr [])
      | _ \<Rightarrow> (case map_of kvs (lit ''text'') of
                Some v \<Rightarrow> Inr v
              | None \<Rightarrow> Inr (JStr (take 400 (d (JDict kvs))))))"
proof (cases "map_of kvs (lit ''message'')")
  case None
  then show ?thesis
    by (auto simp: choice_content_def sbind_def in_keys_map_of split: option.splits)
next
  case (Some m)
  then show ?thesis
    by (cases m) (auto simp: choice_content_def sbind_def in_keys_map_of split: option.splits)
qed

text \<open>A preview that is a string has at most 401 characters.\<close>

lemma summarize_choice_length:
  assumes "summarize_choice d choice = Inr (JStr p)"
  shows "length p \<le> 401"
proof -
  obtain c where c: "choice_content d choice = Inr c" and p: "preview_of c = Inr (JStr p)"
    using assms by (auto simp: summarize_choice_def sbind_def split: sum.splits)
  show ?thesis
  proof (cases c)
    case (JStr s)
    then show ?thesis using p by (auto simp: preview_of_str split: if_splits)
  qed (use p in \<open>auto simp: preview_of_def sbind_def split: if_splits\<close>)
qed

text \<open>
  C8. When the content read from a choice is a string of exactly 401 characters, the preview
  is its first 400 characters followed by one ellipsis; when it has at most 400 characters,
  the preview is the content itself, and cutting that preview again gives it back.
\<close>

theorem summarize_choice_truncation:
  assumes "choice_content d choice = Inr (JStr s)"
  shows "(length s = 401 \<longrightarrow> summarize_choice d choice = Inr (JStr (take 400 s @ [ELLIPSIS])))
       \<and> (length s \<le> 400 \<longrightarrow> summarize_choice d choice = Inr (JStr s)
                               \<and> preview_of (JStr s) = Inr (JStr s))"
  using assms by (simp add: summarize_choice_def sbind_def preview_of_str)

theorem summarize_choice_truncation_witness:
  "choice_content (dumps bare_lib)
      (JDict [(lit ''message'', JDict [(lit ''content'', JStr (replicate 401 97))])])
     = Inr (JStr (replicate 401 97))
   \<and> summarize_choice (dumps bare_lib)
      (JDict [(lit ''message'', JDict [(lit ''content'', JStr (replicate 401 97))])])
     = Inr (JStr (replicate 400 97 @ [ELLIPSIS]))
   \<and> choice_content (dumps bare_lib) (JDict [(lit ''text'', JStr (lit ''X is...''))])
     = Inr (JStr (lit ''X is...''))
   \<and> summarize_choice (dumps bare_lib) (JDict [(lit ''text'', JStr (lit ''X is...''))])
     = Inr (JStr (lit ''X is...''))"
proof -
  have long: "choice_content (dumps bare_lib)
      (JDict [(lit ''message'', JDict [(lit ''content'', JStr (replicate 401 97))])])
     = Inr (JStr (replicate 401 97))"
    by (simp add: choice_content_dict)
  have short: "choice_content (dumps bare_lib) (JDict [(lit ''text'', JStr (lit ''X is...''))])
     = Inr (JStr (lit ''X is...''))"
    by (simp add: choice_content_dict lit_def)
  have len: "length (lit ''X is...'') \<le> 400" by (simp add: lit_def)
  show ?thesis
    using summarize_choice_truncation[OF long] summarize_choice_truncation[OF short] long short len
    by simp
qed

text \<open>
  C10. An assistant message whose content is \<open>null\<close>, as a reply that only calls tools has
  it, gives no preview: \<open>len(None)\<close> raises \<open>TypeError\<close>.
\<close>

theorem summarize_choice_null_content:
  "summarize_choice d (JDict [(lit ''message'', JDict [(lit ''content'', JNull)])]) = Inl TypeError"
  by (simp add: summarize_choice_def choice_content_dict preview_of_def sbind_def)

text \<open>
  C7. A choice with neither a message nor a text field, here a streaming chunk with a
  \<open>delta\<close>, is previewed by the first 400 characters of its rendering and nothing more:
  a rendering longer than that loses its end without an ellipsis.
\<close>

theorem summarize_choice_fallback_cut:
  "summarize_choice d (JDict [(lit ''delta'', JDict [(lit ''content'', JStr s)])])
     = Inr (JStr (take 400 (d (JDict [(lit ''delta'', JDict [(lit ''content'', JStr s)])]))))"
  by (simp add: summarize_choice_def choice_content_dict preview_of_str sbind_def lit_def)

section \<open>UTF-8: the round trip\<close>

lemma dec1: "b < 128 \<Longrightarrow> utf8_decode (b # r) = map_option ((#) b) (utf8_decode r)"
  by simp

lemma dec2:
  "194 \<le> b \<Longrightarrow> b < 224 \<Longrightarrow> cont b1 \<Longrightarrow>
   utf8_decode (b # b1 # r) = map_option ((#) ((b - 192) * 64 + (b1 - 128))) (utf8_decode r)"
  by simp

lemma dec3:
  "224 \<le> b \<Longrightarrow> b < 240 \<Longrightarrow> cont b1 \<Longrightarrow> cont b2 \<Longrightarrow>
   2048 \<le> (b - 224) * 4096 + (b1 - 128) * 64 + (b2 - 128) \<Longrightarrow>
   valid_scalar ((b - 224) * 4096 + (b1 - 128) * 64 + (b2 - 128)) \<Longrightarrow>
   utf8_decode (b # b1 # b2 # r)
     = map_option ((#) ((b - 224) * 4096 + (b1 - 128) * 64 + (b2 - 128))) (utf8_decode r)"
  by (simp add: Let_def)

lemma dec4:
  "240 \<le> b \<Longrightarrow> b < 245 \<Longrightarrow> cont b1 \<Longrightarrow> cont b2 \<Longrightarrow> cont b3 \<Longrightarrow>
   65536 \<le> (b - 240) * 262144 + (b1 - 128) * 4096 + (b2 - 128) * 64 + (b3 - 128) \<Longrightarrow>
   valid_scalar ((b - 240) * 262144 + (b1 - 128) * 4096 + (b2 - 128) * 64 + (b3 - 128)) \<Longrightarrow>
   utf8_decode (b # b1 # b2 # b3 # r)
     = map_option ((#) ((b - 240) * 262144 + (b1 - 128) * 4096 + (b2 - 128) * 64 + (b3 - 128)))
         (utf8_decode r)"
  by (simp add: Let_def)

lemma cont_mod: "cont (128 + n mod 64)"
  by (simp add: cont_def)

lemma split2: "(c::nat) div 64 * 64 + c mod 64 = c"
  by simp

lemma mod4096: "(c::nat) mod 4096 = 64 * (c div 64 mod 64) + c mod 64"
  using mod_mult2_eq[of c 64 64] by simp

lemma split3: "(c::nat) div 4096 * 4096 + c div 64 mod 64 * 64 + c mod 64 = c"
proof -
  have "c div 4096 * 4096 + c mod 4096 = c" by simp
  then show ?thesis using mod4096[of c] by linarith
qed

lemma mod262144: "(c::nat) mod 262144 = 4096 * (c div 4096 mod 64) + c mod 4096"
  using mod_mult2_eq[of c 4096 64] by simp

lemma split4:
  "(c::nat) div 262144 * 262144 + c div 4096 mod 64 * 4096 + c div 64 mod 64 * 64 + c mod 64 = c"
proof -
  have "c div 262144 * 262144 + c mod 262144 = c" by simp
  then show ?thesis using mod262144[of c] mod4096[of c] by linarith
qed

lemma lead2: "128 \<le> (c::nat) \<Longrightarrow> c < 2048 \<Longrightarrow> 2 \<le> c div 64 \<and> c div 64 < 32"
  using div_le_mono[of 128 c 64] less_mult_imp_div_less[of c 32 64] by simp

lemma lead3: "(c::nat) < 65536 \<Longrightarrow> c div 4096 < 16"
  using less_mult_imp_div_less[of c 16 4096] by simp

lemma lead4: "(c::nat) < 1114112 \<Longrightarrow> c div 262144 < 5"
  using less_mult_imp_div_less[of c 5 262144] by simp


lemma decode_char:
  assumes "valid_scalar c"
  shows "utf8_decode (utf8_char c @ bs) = map_option ((#) c) (utf8_decode bs)"
proof -
  consider "c < 128" | "128 \<le> c" "c < 2048" | "2048 \<le> c" "c < 65536" | "65536 \<le> c"
    by linarith
  then show ?thesis
  proof cases
    case 1
    then show ?thesis by (simp add: utf8_char_def)
  next
    case 2
    have a: "194 \<le> 192 + c div 64" "192 + c div 64 < 224" using lead2[OF 2] by simp_all
    have b: "(192 + c div 64 - 192) * 64 + (128 + c mod 64 - 128) = c" by simp
    have "utf8_char c = [192 + c div 64, 128 + c mod 64]" using 2 by (simp add: utf8_char_def)
    then show ?thesis using dec2[OF a cont_mod, of c bs] unfolding b by simp
  next
    case 3
    have a: "224 \<le> 224 + c div 4096" "224 + c div 4096 < 240" using lead3[OF 3(2)] by simp_all
    have b: "(224 + c div 4096 - 224) * 4096 + (128 + c div 64 mod 64 - 128) * 64
              + (128 + c mod 64 - 128) = c" using split3[of c] by simp
    have u: "utf8_char c = [224 + c div 4096, 128 + c div 64 mod 64, 128 + c mod 64]"
      using 3 by (simp add: utf8_char_def)
    have "utf8_decode ((224 + c div 4096) # (128 + c div 64 mod 64) # (128 + c mod 64) # bs)
          = map_option ((#) c) (utf8_decode bs)"
      using dec3[OF a cont_mod cont_mod, of "c div 64" c bs] 3 assms unfolding b by simp
    then show ?thesis using u by simp
  next
    case 4
    have lt: "c < 1114112" using 4 assms by (simp add: valid_scalar_def)
    have a: "240 \<le> 240 + c div 262144" "240 + c div 262144 < 245" using lead4[OF lt] by simp_all
    have b: "(240 + c div 262144 - 240) * 262144 + (128 + c div 4096 mod 64 - 128) * 4096
              + (128 + c div 64 mod 64 - 128) * 64 + (128 + c mod 64 - 128) = c"
      using split4[of c] by simp
    have u: "utf8_char c = [240 + c div 262144, 128 + c div 4096 mod 64, 128 + c div 64 mod 64,
                            128 + c mod 64]"
      using 4 by (simp add: utf8_char_def)
    have "utf8_decode ((240 + c div 262144) # (128 + c div 4096 mod 64) # (128 + c div 64 mod 64)
                        # (128 + c mod 64) # bs)
          = map_option ((#) c) (utf8_decode bs)"
      using dec4[OF a cont_mod cont_mod cont_mod, of "c div 4096" "c div 64" c bs] 4 assms
      unfolding b by simp
    then show ?thesis using u by simp
  qed
qed

declare utf8_decode.simps(2) [simp del]

lemma decode_concat:
  "encodable s \<Longrightarrow> utf8_decode (concat (map utf8_char s) @ bs) = map_option ((@) s) (utf8_decode bs)"
proof (induction s)
  case Nil
  show ?case by (simp add: option.map_ident)
next
  case (Cons c s)
  then have v: "valid_scalar c" and e: "encodable s" by (simp_all add: encodable_def)
  show ?case using Cons.IH[OF e] by (simp add: decode_char[OF v] option.map_comp comp_def)
qed

lemma decode_encode: "utf8_encode s = Some bs \<Longrightarrow> utf8_decode bs = Some s"
  using decode_concat[of s "[]"] by (auto simp: utf8_encode_def split: if_splits)

lemma valid_small: "c < 2048 \<Longrightarrow> valid_scalar c"
  by (simp add: valid_scalar_def)

lemma two_byte_small: "b < 224 \<Longrightarrow> b1 < 192 \<Longrightarrow> (b - 192) * 64 + (b1 - 128) < (2048::nat)"
proof -
  assume "b < 224" "b1 < 192"
  then have "b - 192 \<le> 31" "b1 - 128 \<le> 63" by simp_all
  then have "(b - 192) * 64 \<le> 31 * 64" by simp
  with \<open>b1 - 128 \<le> 63\<close> show ?thesis by simp
qed

lemma encodable_Cons: "encodable (c # s) \<longleftrightarrow> valid_scalar c \<and> encodable s"
  by (simp add: encodable_def)

lemma decode_encodable: "utf8_decode bs = Some s \<Longrightarrow> encodable s"
proof (induction bs arbitrary: s rule: utf8_decode.induct)
  case 1
  then show ?case by (simp add: encodable_def)
next
  case (2 b bs)
  show ?case
  proof (cases "b < 128")
    case True
    then obtain t where t: "utf8_decode bs = Some t" "s = b # t"
      using "2.prems" by (auto simp: utf8_decode.simps(2))
    show ?thesis using "2.IH"(1)[OF True t(1)] True t(2) by (simp add: encodable_Cons valid_small)
  next
    case False
    note nb = False
    show ?thesis
    proof (cases "194 \<le> b \<and> b < 224")
      case True
      then obtain b1 r t where r: "bs = b1 # r" "cont b1" "utf8_decode r = Some t"
        "s = ((b - 192) * 64 + (b1 - 128)) # t"
        using "2.prems" nb by (auto simp: utf8_decode.simps(2) split: list.splits if_splits)
      have "valid_scalar ((b - 192) * 64 + (b1 - 128))"
        using True r(2) by (intro valid_small two_byte_small) (simp_all add: cont_def)
      then show ?thesis using "2.IH"(2)[OF nb True r(1) r(2) r(3)] r(4) by (simp add: encodable_Cons)
    next
      case False
      note n2 = False
      show ?thesis
      proof (cases "224 \<le> b \<and> b < 240")
        case True
        then obtain b1 b2 r t where r: "bs = b1 # b2 # r"
          "cont b1 \<and> cont b2 \<and> 2048 \<le> (b - 224) * 4096 + (b1 - 128) * 64 + (b2 - 128)
             \<and> valid_scalar ((b - 224) * 4096 + (b1 - 128) * 64 + (b2 - 128))"
          "utf8_decode r = Some t" "s = ((b - 224) * 4096 + (b1 - 128) * 64 + (b2 - 128)) # t"
          using "2.prems" nb n2
          by (auto simp: utf8_decode.simps(2) Let_def split: list.splits if_splits)
        show ?thesis
          using "2.IH"(3)[OF nb n2 True r(1) refl refl r(2) r(3)] r(2) r(4) by (simp add: encodable_Cons)
      next
        case False
        note n3 = False
        show ?thesis
        proof (cases "240 \<le> b \<and> b < 245")
          case True
          then obtain b1 b2 b3 r t where r: "bs = b1 # b2 # b3 # r"
            "cont b1 \<and> cont b2 \<and> cont b3
               \<and> 65536 \<le> (b - 240) * 262144 + (b1 - 128) * 4096 + (b2 - 128) * 64 + (b3 - 128)
               \<and> valid_scalar ((b - 240) * 262144 + (b1 - 128) * 4096 + (b2 - 128) * 64 + (b3 - 128))"
            "utf8_decode r = Some t"
            "s = ((b - 240) * 262144 + (b1 - 128) * 4096 + (b2 - 128) * 64 + (b3 - 128)) # t"
            using "2.prems" nb n2 n3
            by (auto simp: utf8_decode.simps(2) Let_def split: list.splits if_splits)
          show ?thesis
            using "2.IH"(4)[OF nb n2 n3 True r(1) refl refl refl r(2) r(3)] r(2) r(4)
            by (simp add: encodable_Cons)
        next
          case False
          then show ?thesis using "2.prems" nb n2 n3 by (auto simp: utf8_decode.simps(2) split: if_splits)
        qed
      qed
    qed
  qed
qed

section \<open>Environment file: the merge\<close>

lemma env_loop_eq:
  "env_loop kts ls nl found = (nl @ map (rewrite kts) ls, found \<union> hits kts ls)"
proof (induction ls arbitrary: nl found)
  case Nil
  show ?case by (simp add: hits_def)
next
  case (Cons l ls)
  have h: "hits kts (l # ls) =
     (case line_key l of None \<Rightarrow> {} | Some k \<Rightarrow> if k \<in> fst ` set kts then {k} else {}) \<union> hits kts ls"
    by (auto simp: hits_def split: option.splits if_splits)
  show ?case
  proof (cases "line_key l")
    case None
    then have "strip l = [] \<or> prefix (lit ''#'') (strip l) \<or> 61 \<notin> set l"
      by (auto simp: line_key_def split: if_splits)
    then show ?thesis using None Cons.IH h by (auto simp: rewrite_def Let_def)
  next
    case (Some k)
    then have c: "\<not> (strip l = [] \<or> prefix (lit ''#'') (strip l) \<or> 61 \<notin> set l)"
      and k: "k = strip (takeWhile (\<lambda>c. c \<noteq> 61) l)"
      by (auto simp: line_key_def split: if_splits)
    show ?thesis
    proof (cases "map_of kts k")
      case None
      then have "k \<notin> fst ` set kts" by (simp add: map_of_eq_None_iff)
      then show ?thesis using None Some c k Cons.IH h by (auto simp: rewrite_def Let_def)
    next
      case (Some v)
      then have "k \<in> fst ` set kts" by (metis map_of_eq_None_iff option.distinct(1))
      then show ?thesis using Some \<open>line_key l = Some k\<close> c k Cons.IH h
        by (auto simp: rewrite_def Let_def)
    qed
  qed
qed

lemma append_missing_eq:
  "append_missing kts found nl =
     nl @ map (\<lambda>kv. fst kv @ lit ''='' @ snd kv) (filter (\<lambda>kv. fst kv \<notin> found) kts)"
  by (induction kts found nl rule: append_missing.induct) auto

lemma merged_lines_eq:
  "merged_lines p ls =
     map (rewrite (keys_to_set p)) ls
     @ map (\<lambda>kv. fst kv @ lit ''='' @ snd kv)
         (filter (\<lambda>kv. fst kv \<notin> hits (keys_to_set p) ls) (keys_to_set p))"
  by (simp add: merged_lines_def Let_def env_loop_eq append_missing_eq)


lemma strip_keeps_head:
  assumes "\<not> is_space c"
  shows "\<exists>t. strip (c # s) = c # t"
proof -
  have "dropWhile is_space (rev s @ [c]) \<noteq> []"
    using assms by (simp add: dropWhile_append)
  moreover have "last (dropWhile is_space (rev s @ [c])) = c"
    using assms by (simp add: dropWhile_append)
  ultimately obtain zs where "dropWhile is_space (rev s @ [c]) = zs @ [c]"
    by (metis append_butlast_last_id)
  then show ?thesis using assms by (simp add: strip_def)
qed

lemma managed_cases: "k \<in> set MANAGED \<longleftrightarrow> k = lit ''SSL_CERT_FILE'' \<or> k = lit ''REQUESTS_CA_BUNDLE''"
  by (auto simp: MANAGED_def)

lemma managed_shape:
  assumes "k \<in> set MANAGED"
  shows "strip k = k" and "61 \<notin> set k" and "\<exists>c t. k = c # t \<and> \<not> is_space c \<and> c \<noteq> 35"
  using assms by (auto simp: managed_cases lit_def strip_def is_space_def)

lemma takeWhile_until: "c \<notin> set k \<Longrightarrow> takeWhile (\<lambda>x. x \<noteq> c) (k @ c # v) = k"
  by (induction k) auto

lemma line_key_new:
  assumes "k \<in> set MANAGED"
  shows "line_key (k @ lit ''='' @ v) = Some k"
proof -
  obtain c t where k: "k = c # t" and c: "\<not> is_space c" "c \<noteq> 35"
    using managed_shape(3)[OF assms] by blast
  obtain u where u: "strip (k @ lit ''='' @ v) = c # u"
    using strip_keeps_head[OF c(1), of "t @ lit ''='' @ v"] k by auto
  have tw: "takeWhile (\<lambda>c. c \<noteq> 61) (k @ lit ''='' @ v) = k"
    using takeWhile_until[OF managed_shape(2)[OF assms], of v] by (simp add: lit_def)
  have "61 \<in> set (k @ lit ''='' @ v)" by (simp add: lit_def)
  then show ?thesis
    using u c tw managed_shape(1)[OF assms] by (simp add: line_key_def lit_def)
qed

lemma map_of_keys: "map_of (keys_to_set p) k = (if k \<in> set MANAGED then Some p else None)"
  by (auto simp: keys_to_set_def MANAGED_def)

lemma rewrite_keys:
  "rewrite (keys_to_set p) l =
     (case line_key l of
        None \<Rightarrow> l
      | Some k \<Rightarrow> if k \<in> set MANAGED then k @ lit ''='' @ p else l)"
  by (simp add: rewrite_def map_of_keys split: option.splits)

lemma line_key_rewrite: "line_key (rewrite (keys_to_set p) l) = line_key l"
  by (auto simp: rewrite_keys line_key_new split: option.splits)



lemma rewrite_managed:
  "k \<in> set MANAGED \<Longrightarrow> line_key l = Some k \<Longrightarrow> rewrite (keys_to_set p) l = k @ lit ''='' @ p"
  by (simp add: rewrite_keys)

lemma hits_keys: "hits (keys_to_set p) ls = {k \<in> set MANAGED. occurrences k ls \<noteq> 0}"
  by (auto simp: hits_def keys_to_set_def MANAGED_def occurrences_def filter_empty_conv)


lemma occurrences_rewrite:
  "occurrences k (map (rewrite (keys_to_set p)) ls) = occurrences k ls"
  by (induction ls) (auto simp: occurrences_def line_key_rewrite)

lemma appended_cases:
  "appended p ls =
     (if occurrences (lit ''SSL_CERT_FILE'') ls = 0 then [lit ''SSL_CERT_FILE'' @ lit ''='' @ p] else [])
     @ (if occurrences (lit ''REQUESTS_CA_BUNDLE'') ls = 0 then [lit ''REQUESTS_CA_BUNDLE'' @ lit ''='' @ p] else [])"
proof -
  have "filter (\<lambda>kv. fst kv \<notin> hits (keys_to_set p) ls) (keys_to_set p)
      = filter (\<lambda>kv. fst kv \<notin> set MANAGED \<or> occurrences (fst kv) ls = 0) (keys_to_set p)"
    by (simp add: hits_keys)
  then show ?thesis
    by (simp add: appended_def) (simp add: keys_to_set_def MANAGED_def)
qed

lemma keys_differ: "lit ''SSL_CERT_FILE'' \<noteq> lit ''REQUESTS_CA_BUNDLE''"
  by (simp add: lit_def)

lemma appended_managed: "l \<in> set (appended p ls) \<Longrightarrow> \<exists>k \<in> set MANAGED. l = k @ lit ''='' @ p"
  by (auto simp: appended_cases MANAGED_def split: if_splits)

lemma occurrences_appended:
  assumes "k \<in> set MANAGED"
  shows "occurrences k (appended p ls) = (if occurrences k ls = 0 then 1 else 0)"
proof -
  have a: "line_key (lit ''SSL_CERT_FILE'' @ lit ''='' @ p) = Some (lit ''SSL_CERT_FILE'')"
    and b: "line_key (lit ''REQUESTS_CA_BUNDLE'' @ lit ''='' @ p) = Some (lit ''REQUESTS_CA_BUNDLE'')"
    by (simp_all add: line_key_new MANAGED_def)
  show ?thesis
    using assms keys_differ
    by (auto simp: managed_cases appended_cases occurrences_def a b)
qed

lemma merged_lines_split: "merged_lines p ls = map (rewrite (keys_to_set p)) ls @ appended p ls"
  by (simp add: merged_lines_eq appended_def)


lemma occurrences_append: "occurrences k (xs @ ys) = occurrences k xs + occurrences k ys"
  by (simp add: occurrences_def)

lemma merged_lines_occurrences:
  assumes "k \<in> set MANAGED"
  shows "occurrences k (merged_lines p ls) = max 1 (occurrences k ls)"
  by (simp add: merged_lines_split occurrences_append occurrences_rewrite
      occurrences_appended[OF assms])


section \<open>Lines of a text\<close>

lemma one_line_Nil: "one_line []"
  by (simp add: one_line_def)

lemma one_line_append: "one_line (a @ b) \<longleftrightarrow> one_line a \<and> one_line b"
  by (auto simp: one_line_def)

lemma one_line_Cons: "one_line (c # t) \<longleftrightarrow> \<not> is_linebreak c \<and> one_line t"
  by (simp add: one_line_def)

lemma linebreak_10: "is_linebreak 10" and linebreak_13: "is_linebreak 13"
  by (simp_all add: is_linebreak_def)

text \<open>No line that \<open>splitlines\<close> gives holds a line boundary.\<close>

lemma splitlines_from_one_line:
  "one_line cur \<Longrightarrow> l \<in> set (splitlines_from cur t) \<Longrightarrow> one_line l"
  by (induction cur t arbitrary: l rule: splitlines_from.induct)
     (auto simp: one_line_append one_line_Cons one_line_Nil split: if_splits)

lemma splitlines_one_line: "l \<in> set (splitlines t) \<Longrightarrow> one_line l"
  unfolding splitlines_def using splitlines_from_one_line[OF one_line_Nil] by blast

text \<open>A line followed by a newline is cut off as it is.\<close>

lemma splitlines_from_line:
  "one_line l \<Longrightarrow> splitlines_from cur (l @ 10 # t) = (cur @ l) # splitlines_from [] t"
proof (induction l arbitrary: cur)
  case Nil
  show ?case using linebreak_10 by (cases t) simp_all
next
  case (Cons c l)
  then have c: "\<not> is_linebreak c" and l: "one_line l" by (simp_all add: one_line_Cons)
  have n13: "c \<noteq> 13" using c linebreak_13 by auto
  obtain d r where dr: "l @ 10 # t = d # r" by (cases "l @ 10 # t") auto
  have "splitlines_from cur (c # d # r) = splitlines_from (cur @ [c]) (d # r)"
    using c n13 by simp
  then show ?case using Cons.IH[OF l, of "cur @ [c]"] dr by simp
qed

lemma universal_newlines_id: "13 \<notin> set t \<Longrightarrow> universal_newlines t = t"
  by (induction t rule: universal_newlines.induct) auto

lemma one_line_no_cr: "one_line t \<Longrightarrow> 13 \<notin> set t"
  using linebreak_13 by (auto simp: one_line_def)

lemma join_lines: "ls \<noteq> [] \<Longrightarrow> join [10] ls @ [10] = concat (map (\<lambda>l. l @ [10]) ls)"
  by (induction "[10::nat]" ls rule: join.induct) simp_all

lemma splitlines_concat:
  "\<forall>l \<in> set ls. one_line l \<Longrightarrow> splitlines_from [] (concat (map (\<lambda>l. l @ [10]) ls)) = ls"
  by (induction ls) (simp_all add: splitlines_from_line)

lemma no_cr_concat: "\<forall>l \<in> set ls. one_line l \<Longrightarrow> 13 \<notin> set (concat (map (\<lambda>l. l @ [10]) ls))"
  using one_line_no_cr by auto

text \<open>Lines joined and ended by newlines are read back as they were.\<close>

lemma splitlines_join:
  assumes "ls \<noteq> []" and "\<forall>l \<in> set ls. one_line l"
  shows "splitlines (universal_newlines (join [10] ls @ [10])) = ls"
  using assms
  by (simp add: join_lines universal_newlines_id[OF no_cr_concat] splitlines_def splitlines_concat)

section \<open>Environment file: reading and writing\<close>

lemma encodable_append: "encodable (a @ b) \<longleftrightarrow> encodable a \<and> encodable b"
  by (auto simp: encodable_def)

lemma encodable_Nil: "encodable []"
  by (simp add: encodable_def)

lemma encodable_subset: "set a \<subseteq> set b \<Longrightarrow> encodable b \<Longrightarrow> encodable a"
  by (auto simp: encodable_def)

lemma valid_10: "valid_scalar 10"
  by (simp add: valid_scalar_def)

lemma set_universal_newlines: "set (universal_newlines t) \<subseteq> insert 10 (set t)"
  by (induction t rule: universal_newlines.induct) auto

lemma encodable_universal_newlines: "encodable t \<Longrightarrow> encodable (universal_newlines t)"
  using set_universal_newlines[of t] valid_10 by (auto simp: encodable_def)

lemma set_splitlines_from: "l \<in> set (splitlines_from cur t) \<Longrightarrow> set l \<subseteq> set cur \<union> set t"
  by (induction cur t arbitrary: l rule: splitlines_from.induct) (auto split: if_splits)

lemma encodable_splitlines: "encodable t \<Longrightarrow> l \<in> set (splitlines t) \<Longrightarrow> encodable l"
  using set_splitlines_from[of l "[]" t] by (auto simp: splitlines_def encodable_def)

lemma encodable_join:
  "\<forall>l \<in> set ls. encodable l \<Longrightarrow> encodable (join [10] ls @ [10])"
  by (induction "[10::nat]" ls rule: join.induct)
     (simp_all add: encodable_append encodable_Cons encodable_Nil valid_10)

lemma encode_total: "encodable t \<Longrightarrow> \<exists>b. utf8_encode t = Some b"
  by (simp add: utf8_encode_def)

text \<open>The lines read are single lines of text that can be encoded.\<close>

lemma read_lines_cases:
  assumes "read_lines env_path s = Inr ls"
  shows "ls = [] \<or> (\<exists>b t. utf8_decode b = Some t \<and> ls = splitlines (universal_newlines t))"
  using assms
  by (auto simp: read_lines_def read_text_def sbind_def split: if_splits option.splits)

lemma read_lines_lines:
  assumes "read_lines env_path s = Inr ls" and "l \<in> set ls"
  shows "one_line l" and "encodable l"
proof -
  from read_lines_cases[OF assms(1)] assms(2)
  obtain b t where t: "utf8_decode b = Some t" "l \<in> set (splitlines (universal_newlines t))"
    by auto
  show "one_line l" using t(2) by (rule splitlines_one_line)
  have "encodable (universal_newlines t)"
    using decode_encodable[OF t(1)] by (rule encodable_universal_newlines)
  then show "encodable l" using t(2) by (rule encodable_splitlines)
qed

section \<open>Environment file: the merged lines as text\<close>

lemma managed_text: "k \<in> set MANAGED \<Longrightarrow> one_line k \<and> encodable k"
  by (auto simp: managed_cases lit_def one_line_def is_linebreak_def encodable_def valid_scalar_def)

lemma eq_text: "one_line (lit ''='') \<and> encodable (lit ''='')"
  by (simp add: lit_def one_line_def is_linebreak_def encodable_def valid_scalar_def)

lemma bound_text:
  assumes "k \<in> set MANAGED" and "one_line p" and "encodable p"
  shows "one_line (k @ lit ''='' @ p)" and "encodable (k @ lit ''='' @ p)"
  using assms managed_text[OF assms(1)] eq_text
  by (simp_all add: one_line_append encodable_append)

lemma merged_lines_text:
  assumes "\<forall>l \<in> set ls. one_line l \<and> encodable l" and "one_line p" and "encodable p"
    and "l \<in> set (merged_lines p ls)"
  shows "one_line l \<and> encodable l"
proof -
  from assms(4) consider l0 where "l0 \<in> set ls" "l = rewrite (keys_to_set p) l0"
    | "l \<in> set (appended p ls)"
    by (auto simp: merged_lines_split)
  then show ?thesis
  proof cases
    case 1
    then show ?thesis using assms(1) bound_text[OF _ assms(2,3)]
      by (auto simp: rewrite_keys split: option.splits)
  next
    case 2
    then obtain k where "k \<in> set MANAGED" "l = k @ lit ''='' @ p"
      using appended_managed by blast
    then show ?thesis using bound_text[OF _ assms(2,3)] by simp
  qed
qed

lemma merged_lines_nonempty: "merged_lines p ls \<noteq> []"
proof -
  have "occurrences (lit ''SSL_CERT_FILE'') (merged_lines p ls) \<noteq> 0"
    using merged_lines_occurrences[of "lit ''SSL_CERT_FILE''" p ls] by (simp add: MANAGED_def)
  then show ?thesis by (auto simp: occurrences_def)
qed

section \<open>Environment file: the backup and the update\<close>

lemma print_files [simp]: "files (print l s) = files s" "locate (print l s) = locate s"
  "blocked (print l s) = blocked s"
  by (simp_all add: print_def)

lemma put_file_locate [simp]: "locate (put_file p b s) = locate s"
  by (simp add: put_file_def)

lemma file_at_print [simp]: "file_at (print l s) p = file_at s p"
  by (simp add: file_at_def)

lemma file_at_put: "file_at (put_file p b s) q = (if locate s q = locate s p then Some b else file_at s q)"
  by (simp add: file_at_def put_file_def)

lemma exists_print [simp]: "exists_path (print l s) p = exists_path s p"
  by (simp add: exists_path_def)

text \<open>What \<open>backup_env\<close> does to the files: a copy, when there is a file and no backup.\<close>

lemma backup_env_file_at:
  "file_at (snd (backup_env env_path s)) q =
     (case file_at s env_path of
        Some content \<Rightarrow>
          if \<not> exists_path s (env_path @ BACKUP_SUFFIX)
             \<and> locate s q = locate s (env_path @ BACKUP_SUFFIX)
          then Some content else file_at s q
      | None \<Rightarrow> file_at s q)"
  by (auto simp: backup_env_def Let_def file_at_put split: option.splits)

lemma backup_env_locate [simp]: "locate (snd (backup_env env_path s)) = locate s"
  by (auto simp: backup_env_def Let_def split: option.splits)

text \<open>The backup never touches the environment file itself.\<close>

lemma backup_env_keeps_env: "file_at (snd (backup_env env_path s)) env_path = file_at s env_path"
proof (cases "locate s env_path = locate s (env_path @ BACKUP_SUFFIX)")
  case True
  then have "file_at s (env_path @ BACKUP_SUFFIX) = file_at s env_path" by (simp add: file_at_def)
  then show ?thesis by (auto simp: backup_env_file_at exists_path_def split: option.splits)
next
  case False
  then show ?thesis by (auto simp: backup_env_file_at split: option.splits)
qed

lemma read_lines_cong:
  "file_at s' env_path = file_at s env_path \<Longrightarrow> read_lines env_path s' = read_lines env_path s"
  by (simp add: read_lines_def read_text_def exists_path_def)

lemma read_lines_backup: "read_lines env_path (snd (backup_env env_path s)) = read_lines env_path s"
  by (rule read_lines_cong) (rule backup_env_keeps_env)

text \<open>
  The update when the lines can be read and the bundle path is one line of text that can
  be encoded: no exception, and the file read back holds the merged lines.
\<close>

lemma update_env_file_lines:
  assumes "read_lines env_path s = Inr before" and "one_line p" and "encodable p"
  shows "fst (update_env_file p env_path s) = None"
    and "read_lines env_path (snd (update_env_file p env_path s)) = Inr (merged_lines p before)"
proof -
  let ?s1 = "snd (backup_env env_path s)"
  let ?new = "merged_lines p before"
  let ?txt = "join [10] ?new @ [10]"
  have r1: "read_lines env_path ?s1 = Inr before" using assms(1) by (simp add: read_lines_backup)
  have tx: "\<forall>l \<in> set ?new. one_line l \<and> encodable l"
    using merged_lines_text[OF _ assms(2,3)] read_lines_lines[OF assms(1)] by blast
  then have "encodable ?txt" by (simp add: encodable_join)
  then obtain b where b: "utf8_encode ?txt = Some b" using encode_total by blast
  have w: "write_text env_path ?txt ?s1 = (None, put_file env_path b ?s1)"
    by (simp add: write_text_def b)
  have u: "update_env_file p env_path s
        = (None, print (lit ''.env updated (merged) with keys: ''
                        @ join (lit '', '') (map fst (keys_to_set p))) (put_file env_path b ?s1))"
    by (simp add: update_env_file_def Let_def r1 w)
  show "fst (update_env_file p env_path s) = None" by (simp add: u)
  have "file_at (snd (update_env_file p env_path s)) env_path = Some b"
    by (simp add: u file_at_put)
  moreover have "utf8_decode b = Some ?txt" using b by (rule decode_encode)
  moreover have "splitlines (universal_newlines ?txt) = ?new"
    using splitlines_join[OF merged_lines_nonempty] tx by blast
  ultimately show "read_lines env_path (snd (update_env_file p env_path s)) = Inr ?new"
    by (simp add: read_lines_def read_text_def exists_path_def sbind_def)
qed

lemma update_env_file_locate [simp]: "locate (snd (update_env_file p env_path s)) = locate s"
  by (auto simp: update_env_file_def write_text_def Let_def split: sum.splits option.splits)






section \<open>Concrete files\<close>

lemma utf8_decode_ascii: "\<forall>c \<in> set b. c < 128 \<Longrightarrow> utf8_decode b = Some b"
  by (induction b) (simp_all add: dec1)

lemma utf8_char_ascii: "\<forall>c \<in> set t. c < 128 \<Longrightarrow> concat (map utf8_char t) = t"
  by (induction t) (simp_all add: utf8_char_def)

lemma utf8_encode_ascii: "\<forall>c \<in> set t. c < 128 \<Longrightarrow> utf8_encode t = Some t"
  by (auto simp: utf8_encode_def utf8_char_ascii encodable_def valid_scalar_def)

text \<open>What the update leaves in the environment file when nothing fails.\<close>

lemma update_env_file_written:
  assumes "read_lines env_path s = Inr before"
    and "utf8_encode (join [10] (merged_lines p before) @ [10]) = Some b"
  shows "update_env_file p env_path s =
           (None, print (lit ''.env updated (merged) with keys: ''
                         @ join (lit '', '') (map fst (keys_to_set p)))
                    (put_file env_path b (snd (backup_env env_path s))))"
  using assms by (simp add: update_env_file_def Let_def read_lines_backup write_text_def)

lemma plain_file_at [simp]: "file_at (plain_fs f) p = f p"
  by (simp add: plain_fs_def file_at_def)

lemma plain_locate [simp]: "locate (plain_fs f) = (\<lambda>p. p)"
  by (simp add: plain_fs_def)





lemma example_path: "one_line (lit ''/b.pem'')" "encodable (lit ''/b.pem'')"
  by (simp_all add: lit_def one_line_def is_linebreak_def encodable_def valid_scalar_def)

text \<open>An environment file with a managed key on two lines.\<close>

lemma duplicate_read:
  "read_lines ENV_PATH
     (plain_fs (Map.empty(ENV_PATH \<mapsto>
        lit ''SSL_CERT_FILE=/a.pem'' @ [10] @ lit ''SSL_CERT_FILE=/old.pem'' @ [10])))
   = Inr [lit ''SSL_CERT_FILE=/a.pem'', lit ''SSL_CERT_FILE=/old.pem'']"
  by (simp add: read_lines_def read_text_def exists_path_def sbind_def)
     (simp add: lit_def utf8_decode_ascii splitlines_def is_linebreak_def)

lemma duplicate_lines:
  "merged_lines (lit ''/b.pem'') [lit ''SSL_CERT_FILE=/a.pem'', lit ''SSL_CERT_FILE=/old.pem'']
     = [lit ''SSL_CERT_FILE=/b.pem'', lit ''SSL_CERT_FILE=/b.pem'', lit ''REQUESTS_CA_BUNDLE=/b.pem'']"
  by (simp add: merged_lines_def keys_to_set_def Let_def strip_def is_space_def lit_def)

lemma duplicate_after:
  "read_lines ENV_PATH
     (snd (update_env_file (lit ''/b.pem'') ENV_PATH
        (plain_fs (Map.empty(ENV_PATH \<mapsto>
           lit ''SSL_CERT_FILE=/a.pem'' @ [10] @ lit ''SSL_CERT_FILE=/old.pem'' @ [10])))))
   = Inr [lit ''SSL_CERT_FILE=/b.pem'', lit ''SSL_CERT_FILE=/b.pem'', lit ''REQUESTS_CA_BUNDLE=/b.pem'']"
  using update_env_file_lines(2)[OF duplicate_read example_path] by (simp add: duplicate_lines)

section \<open>Environment file: the claims\<close>

lemma merged_lines_length:
  "length (merged_lines p ls) = length ls + length (filter (\<lambda>k. occurrences k ls = 0) MANAGED)"
  by (simp add: merged_lines_split appended_cases MANAGED_def)

lemma merged_lines_nth:
  assumes "i < length ls" and "k \<in> set MANAGED" and "line_key (ls ! i) = Some k"
  shows "merged_lines p ls ! i = k @ lit ''='' @ p"
  using assms by (simp add: merged_lines_split nth_append rewrite_managed)




text \<open>A file that is not UTF-8 stops the update, after the backup, and stays as it is.\<close>

lemma not_utf8_update:
  "fst (update_env_file (lit ''/b.pem'') ENV_PATH (plain_fs (Map.empty(ENV_PATH \<mapsto> [255]))))
     = Some UnicodeDecodeError"
  "file_at (snd (update_env_file (lit ''/b.pem'') ENV_PATH
                   (plain_fs (Map.empty(ENV_PATH \<mapsto> [255]))))) ENV_PATH = Some [255]"
proof -
  have r: "read_lines ENV_PATH (plain_fs (Map.empty(ENV_PATH \<mapsto> [255]))) = Inl UnicodeDecodeError"
    by (simp add: read_lines_def read_text_def exists_path_def sbind_def utf8_decode.simps(2))
  show "fst (update_env_file (lit ''/b.pem'') ENV_PATH (plain_fs (Map.empty(ENV_PATH \<mapsto> [255]))))
     = Some UnicodeDecodeError"
    by (simp add: update_env_file_def Let_def read_lines_backup r)
  show "file_at (snd (update_env_file (lit ''/b.pem'') ENV_PATH
                   (plain_fs (Map.empty(ENV_PATH \<mapsto> [255]))))) ENV_PATH = Some [255]"
    by (simp add: update_env_file_def Let_def read_lines_backup r backup_env_keeps_env)
qed

text \<open>A bundle path with a lone surrogate cannot be encoded: the file is left empty.\<close>

lemma surrogate_path_update:
  "fst (update_env_file [56448] ENV_PATH (plain_fs (Map.empty(ENV_PATH \<mapsto> lit ''API=1'' @ [10]))))
     = Some UnicodeEncodeError"
  "file_at (snd (update_env_file [56448] ENV_PATH
                   (plain_fs (Map.empty(ENV_PATH \<mapsto> lit ''API=1'' @ [10]))))) ENV_PATH = Some []"
proof -
  let ?s = "plain_fs (Map.empty(ENV_PATH \<mapsto> lit ''API=1'' @ [10]))"
  have r: "read_lines ENV_PATH ?s = Inr [lit ''API=1'']"
    by (simp add: read_lines_def read_text_def exists_path_def sbind_def)
       (simp add: lit_def utf8_decode_ascii splitlines_def is_linebreak_def)
  have "\<not> encodable (join [10] (merged_lines [56448] [lit ''API=1'']) @ [10])"
    by (simp add: merged_lines_def keys_to_set_def Let_def strip_def is_space_def lit_def
        encodable_def valid_scalar_def)
  then have e: "utf8_encode (join [10] (merged_lines [56448] [lit ''API=1'']) @ [10]) = None"
    by (simp add: utf8_encode_def)
  show "fst (update_env_file [56448] ENV_PATH ?s) = Some UnicodeEncodeError"
    by (simp add: update_env_file_def Let_def read_lines_backup r write_text_def e)
  show "file_at (snd (update_env_file [56448] ENV_PATH ?s)) ENV_PATH = Some []"
    by (simp add: update_env_file_def Let_def read_lines_backup r write_text_def e file_at_put)
qed


text \<open>
  C2, as amended. When the environment file is absent or holds UTF-8 text, and the bundle
  path is one line of text that UTF-8 can encode, the file the update leaves has the
  lines of the original at their positions, followed by one line for each managed key the
  original does not have; and every line of the original that is a line of a managed key,
  the first and each later one, is replaced at its position by the key bound to the new
  bundle path: no duplicate keeps its old value.
\<close>

theorem update_env_file_replaces_every_occurrence:
  assumes "read_lines env_path s = Inr before" and "one_line p" and "encodable p"
  shows "\<exists>after.
           fst (update_env_file p env_path s) = None
         \<and> read_lines env_path (snd (update_env_file p env_path s)) = Inr after
         \<and> length after = length before + length (filter (\<lambda>k. occurrences k before = 0) MANAGED)
         \<and> (\<forall>i < length before. \<forall>k \<in> set MANAGED.
               line_key (before ! i) = Some k \<longrightarrow> after ! i = k @ lit ''='' @ p)"
  using update_env_file_lines[OF assms] merged_lines_length[of p before]
    merged_lines_nth[of _ before _ p]
  by auto

theorem update_env_file_replaces_every_occurrence_witness:
  "read_lines ENV_PATH
     (plain_fs (Map.empty(ENV_PATH \<mapsto>
        lit ''SSL_CERT_FILE=/a.pem'' @ [10] @ lit ''SSL_CERT_FILE=/old.pem'' @ [10])))
     = Inr [lit ''SSL_CERT_FILE=/a.pem'', lit ''SSL_CERT_FILE=/old.pem'']
   \<and> one_line (lit ''/b.pem'') \<and> encodable (lit ''/b.pem'')
   \<and> (1::nat) < length [lit ''SSL_CERT_FILE=/a.pem'', lit ''SSL_CERT_FILE=/old.pem'']
   \<and> lit ''SSL_CERT_FILE'' \<in> set MANAGED
   \<and> line_key ([lit ''SSL_CERT_FILE=/a.pem'', lit ''SSL_CERT_FILE=/old.pem''] ! 1)
       = Some (lit ''SSL_CERT_FILE'')
   \<and> (\<exists>after.
        read_lines ENV_PATH
          (snd (update_env_file (lit ''/b.pem'') ENV_PATH
             (plain_fs (Map.empty(ENV_PATH \<mapsto>
                lit ''SSL_CERT_FILE=/a.pem'' @ [10] @ lit ''SSL_CERT_FILE=/old.pem'' @ [10])))))
          = Inr after
        \<and> length after = 3
        \<and> after ! 1 = lit ''SSL_CERT_FILE'' @ lit ''='' @ lit ''/b.pem'')"
proof -
  let ?before = "[lit ''SSL_CERT_FILE=/a.pem'', lit ''SSL_CERT_FILE=/old.pem'']"
  have m: "lit ''SSL_CERT_FILE'' \<in> set MANAGED" by (simp add: MANAGED_def)
  have k: "line_key (?before ! 1) = Some (lit ''SSL_CERT_FILE'')"
    by (simp add: line_key_def strip_def is_space_def lit_def)
  have k0: "line_key (?before ! 0) = Some (lit ''SSL_CERT_FILE'')"
    by (simp add: line_key_def strip_def is_space_def lit_def)
  have c: "length (filter (\<lambda>k. occurrences k ?before = 0) MANAGED) = 1"
    using k k0 by (simp add: MANAGED_def occurrences_def) (simp add: lit_def)
  from update_env_file_replaces_every_occurrence[OF duplicate_read example_path]
  obtain after where a: "read_lines ENV_PATH
          (snd (update_env_file (lit ''/b.pem'') ENV_PATH
             (plain_fs (Map.empty(ENV_PATH \<mapsto>
                lit ''SSL_CERT_FILE=/a.pem'' @ [10] @ lit ''SSL_CERT_FILE=/old.pem'' @ [10])))))
          = Inr after"
    and l: "length after = length ?before + length (filter (\<lambda>k. occurrences k ?before = 0) MANAGED)"
    and r: "\<forall>i < length ?before. \<forall>k \<in> set MANAGED.
               line_key (?before ! i) = Some k \<longrightarrow> after ! i = k @ lit ''='' @ lit ''/b.pem''"
    by blast
  have l3: "length after = 3" using l c by simp
  have r1: "after ! 1 = lit ''SSL_CERT_FILE'' @ lit ''='' @ lit ''/b.pem''"
    using r m k by simp
  have one: "(1::nat) < length ?before" by simp
  show ?thesis
    using duplicate_read example_path one m k a l3 r1 by blast
qed

text \<open>With a newline in the bundle path the replaced line is read back as two.\<close>

lemma newline_path_replace:
  "read_lines ENV_PATH
     (snd (update_env_file (lit ''/a'' @ [10] @ lit ''/b'') ENV_PATH
        (plain_fs (Map.empty(ENV_PATH \<mapsto> lit ''SSL_CERT_FILE=/old.pem'' @ [10])))))
   = Inr [lit ''SSL_CERT_FILE=/a'', lit ''/b'', lit ''REQUESTS_CA_BUNDLE=/a'', lit ''/b'']"
proof -
  have r: "read_lines ENV_PATH (plain_fs (Map.empty(ENV_PATH \<mapsto> lit ''SSL_CERT_FILE=/old.pem'' @ [10])))
         = Inr [lit ''SSL_CERT_FILE=/old.pem'']"
    by (simp add: read_lines_def read_text_def exists_path_def sbind_def)
       (simp add: lit_def utf8_decode_ascii splitlines_def is_linebreak_def)
  have m: "merged_lines (lit ''/a'' @ [10] @ lit ''/b'') [lit ''SSL_CERT_FILE=/old.pem'']
         = [lit ''SSL_CERT_FILE=/a'' @ [10] @ lit ''/b'', lit ''REQUESTS_CA_BUNDLE=/a'' @ [10] @ lit ''/b'']"
    by (simp add: merged_lines_def keys_to_set_def Let_def strip_def is_space_def lit_def)
  have e: "utf8_encode (join [10] (merged_lines (lit ''/a'' @ [10] @ lit ''/b'')
                                     [lit ''SSL_CERT_FILE=/old.pem'']) @ [10])
         = Some (lit ''SSL_CERT_FILE=/a'' @ [10] @ lit ''/b'' @ [10]
                 @ lit ''REQUESTS_CA_BUNDLE=/a'' @ [10] @ lit ''/b'' @ [10])"
    unfolding m by (simp add: lit_def utf8_encode_ascii)
  show ?thesis
    unfolding update_env_file_written[OF r e]
    by (simp add: read_lines_def read_text_def exists_path_def sbind_def file_at_put)
       (simp add: lit_def utf8_decode_ascii splitlines_def is_linebreak_def)
qed

theorem update_env_file_later_duplicate_counterexample:
  "read_lines ENV_PATH
     (snd (update_env_file (lit ''/b.pem'') ENV_PATH
        (plain_fs (Map.empty(ENV_PATH \<mapsto>
           lit ''SSL_CERT_FILE=/a.pem'' @ [10] @ lit ''SSL_CERT_FILE=/old.pem'' @ [10])))))
     = Inr [lit ''SSL_CERT_FILE=/b.pem'', lit ''SSL_CERT_FILE=/b.pem'', lit ''REQUESTS_CA_BUNDLE=/b.pem'']
   \<and> [lit ''SSL_CERT_FILE=/b.pem'', lit ''SSL_CERT_FILE=/b.pem'', lit ''REQUESTS_CA_BUNDLE=/b.pem''] ! 1
       \<noteq> lit ''SSL_CERT_FILE=/old.pem''
   \<and> read_lines ENV_PATH
        (snd (update_env_file (lit ''/a'' @ [10] @ lit ''/b'') ENV_PATH
           (plain_fs (Map.empty(ENV_PATH \<mapsto> lit ''SSL_CERT_FILE=/old.pem'' @ [10])))))
     = Inr [lit ''SSL_CERT_FILE=/a'', lit ''/b'', lit ''REQUESTS_CA_BUNDLE=/a'', lit ''/b'']
   \<and> [lit ''SSL_CERT_FILE=/a'', lit ''/b'', lit ''REQUESTS_CA_BUNDLE=/a'', lit ''/b''] ! 0
       \<noteq> lit ''SSL_CERT_FILE'' @ lit ''='' @ lit ''/a'' @ [10] @ lit ''/b''
   \<and> fst (update_env_file (lit ''/b.pem'') ENV_PATH (plain_fs (Map.empty(ENV_PATH \<mapsto> [255]))))
     = Some UnicodeDecodeError
   \<and> fst (update_env_file [56448] ENV_PATH (plain_fs (Map.empty(ENV_PATH \<mapsto> lit ''API=1'' @ [10]))))
     = Some UnicodeEncodeError"
proof -
  have a: "[lit ''SSL_CERT_FILE=/b.pem'', lit ''SSL_CERT_FILE=/b.pem'', lit ''REQUESTS_CA_BUNDLE=/b.pem''] ! 1
       \<noteq> lit ''SSL_CERT_FILE=/old.pem''"
    by (simp add: lit_def)
  have b: "[lit ''SSL_CERT_FILE=/a'', lit ''/b'', lit ''REQUESTS_CA_BUNDLE=/a'', lit ''/b''] ! 0
       \<noteq> lit ''SSL_CERT_FILE'' @ lit ''='' @ lit ''/a'' @ [10] @ lit ''/b''"
    by (simp add: lit_def)
  show ?thesis
    using duplicate_after a newline_path_replace b not_utf8_update(1) surrogate_path_update(1)
    by simp
qed





section \<open>Trust bundle\<close>

text \<open>
  C4, as amended. When the output path names neither the public bundle nor the custom
  certificate, the file written holds the bytes of the public bundle, one newline byte
  and the bytes of the custom certificate, whatever the buffering, and no other file
  changes; when the parent directory cannot be made, nothing is written.
\<close>

theorem write_combined_bundle_exact:
  assumes "file_at s cpath = Some public" and "file_at s zpath = Some custom"
    and "locate s out_path \<noteq> locate s cpath" and "locate s out_path \<noteq> locate s zpath"
  shows "(out_path \<notin> blocked s \<longrightarrow>
           (\<exists>s'. write_combined_bundle cpath fl zpath out_path s = Inr (out_path, s')
                \<and> file_at s' out_path = Some (public @ [10] @ custom)
                \<and> (\<forall>q. locate s q \<noteq> locate s out_path \<longrightarrow> file_at s' q = file_at s q)))
       \<and> (out_path \<in> blocked s \<longrightarrow>
            write_combined_bundle cpath fl zpath out_path s = Inl OSError)"
  using assms
  by (auto simp: write_combined_bundle_def Let_def exists_path_def file_at_put)

theorem write_combined_bundle_exact_witness:
  "file_at (plain_fs (Map.empty(lit ''ca.pem'' \<mapsto> [45, 65], lit ''z.cer'' \<mapsto> [45, 90])))
      (lit ''ca.pem'') = Some [45, 65]
   \<and> file_at (plain_fs (Map.empty(lit ''ca.pem'' \<mapsto> [45, 65], lit ''z.cer'' \<mapsto> [45, 90])))
      (lit ''z.cer'') = Some [45, 90]
   \<and> locate (plain_fs (Map.empty(lit ''ca.pem'' \<mapsto> [45, 65], lit ''z.cer'' \<mapsto> [45, 90])))
        (lit ''out.pem'')
       \<noteq> locate (plain_fs (Map.empty(lit ''ca.pem'' \<mapsto> [45, 65], lit ''z.cer'' \<mapsto> [45, 90])))
           (lit ''ca.pem'')
   \<and> locate (plain_fs (Map.empty(lit ''ca.pem'' \<mapsto> [45, 65], lit ''z.cer'' \<mapsto> [45, 90])))
        (lit ''out.pem'')
       \<noteq> locate (plain_fs (Map.empty(lit ''ca.pem'' \<mapsto> [45, 65], lit ''z.cer'' \<mapsto> [45, 90])))
           (lit ''z.cer'')
   \<and> lit ''out.pem''
       \<notin> blocked (plain_fs (Map.empty(lit ''ca.pem'' \<mapsto> [45, 65], lit ''z.cer'' \<mapsto> [45, 90])))
   \<and> (\<exists>s'. write_combined_bundle (lit ''ca.pem'') 0 (lit ''z.cer'') (lit ''out.pem'')
              (plain_fs (Map.empty(lit ''ca.pem'' \<mapsto> [45, 65], lit ''z.cer'' \<mapsto> [45, 90])))
            = Inr (lit ''out.pem'', s')
          \<and> file_at s' (lit ''out.pem'') = Some [45, 65, 10, 45, 90])"
proof -
  let ?s = "plain_fs (Map.empty(lit ''ca.pem'' \<mapsto> [45, 65], lit ''z.cer'' \<mapsto> [45, 90]))"
  have a: "file_at ?s (lit ''ca.pem'') = Some [45, 65]" by (simp add: lit_def)
  have b: "file_at ?s (lit ''z.cer'') = Some [45, 90]" by (simp add: lit_def)
  have c: "locate ?s (lit ''out.pem'') \<noteq> locate ?s (lit ''ca.pem'')" by (simp add: lit_def)
  have d: "locate ?s (lit ''out.pem'') \<noteq> locate ?s (lit ''z.cer'')" by (simp add: lit_def)
  have e: "lit ''out.pem'' \<notin> blocked ?s" by (simp add: plain_fs_def)
  show ?thesis
    using write_combined_bundle_exact[OF a b c d, of 0] a b c d e by auto
qed

theorem write_combined_bundle_same_file_counterexample:
  "lit ''/w/z.cer'' \<noteq> lit ''z.cer''
   \<and> file_at (linked_fs (lit ''/w/z.cer'') (lit ''z.cer'')
                (Map.empty(lit ''ca.pem'' \<mapsto> [45, 65], lit ''z.cer'' \<mapsto> [45, 90])))
        (lit ''z.cer'') = Some [45, 90]
   \<and> (case write_combined_bundle (lit ''ca.pem'') 0 (lit ''z.cer'') (lit ''/w/z.cer'')
              (linked_fs (lit ''/w/z.cer'') (lit ''z.cer'')
                 (Map.empty(lit ''ca.pem'' \<mapsto> [45, 65], lit ''z.cer'' \<mapsto> [45, 90]))) of
         Inr r \<Rightarrow> file_at (snd r) (lit ''/w/z.cer'')
       | Inl e \<Rightarrow> None) = Some [45, 65, 10]"
  by (simp add: write_combined_bundle_def Let_def exists_path_def file_at_def put_file_def
      print_def linked_fs_def lit_def)

section \<open>API client\<close>

text \<open>
  C5, as amended. Whenever the network answers with a response: for an error status
  (400 to 599) the call raises \<open>RuntimeError\<close> with the message \<open>Groq API error: \<close>
  followed by the parsed JSON body or, when the body is not JSON, by the raw text, or by
  the status code and reason when that text is empty; for any other status a body that is
  not JSON raises \<open>RuntimeError\<close> with the parse failure and the raw text, and a JSON body
  is returned as it is.
\<close>

theorem send_chat_response:
  assumes "\<forall>req. post env req = Inr resp"
  shows "send_chat lib env msgs mdl temp mt tmo =
     (if \<not> ok resp then
        Inl (RuntimeError (lit ''Groq API error: '' @
               (case resp_json resp of
                  Inr j \<Rightarrow> py_str lib j
                | Inl why \<Rightarrow> if resp_text resp \<noteq> [] then resp_text resp
                             else str_int (status_code resp) @ lit '' '' @ reason resp)))
      else
        (case resp_json resp of
           Inr j \<Rightarrow> Inr j
         | Inl why \<Rightarrow>
             Inl (RuntimeError (lit ''Failed to parse Groq response as JSON: '' @ why
                                @ lit ''; raw: '' @ resp_text resp))))"
  using assms
  by (simp add: send_chat_def check_response_def sbind_def Let_def py_str_def split: sum.splits)

lemma str_int_500: "str_int 500 = lit ''500''"
  by (simp add: str_int_def str_nat.simps lit_def)

theorem send_chat_response_witness:
  "(\<forall>req. post (answering (Inr \<lparr>status_code = 401, reason = lit ''Unauthorized'',
                                  resp_text = lit ''invalid api key'',
                                  resp_json = Inl (lit ''Expecting value'')\<rparr>)) req
          = Inr \<lparr>status_code = 401, reason = lit ''Unauthorized'',
                 resp_text = lit ''invalid api key'', resp_json = Inl (lit ''Expecting value'')\<rparr>)
   \<and> send_chat bare_lib
        (answering (Inr \<lparr>status_code = 401, reason = lit ''Unauthorized'',
                         resp_text = lit ''invalid api key'',
                         resp_json = Inl (lit ''Expecting value'')\<rparr>))
        (JList []) JNull JNull JNull 15
       = Inl (RuntimeError (lit ''Groq API error: '' @ lit ''invalid api key''))"
proof -
  let ?resp = "\<lparr>status_code = 401, reason = lit ''Unauthorized'',
                 resp_text = lit ''invalid api key'', resp_json = Inl (lit ''Expecting value'')\<rparr>"
  have a: "\<forall>req. post (answering (Inr ?resp)) req = Inr ?resp"
    by (simp add: answering_def)
  have n: "\<not> ok ?resp" by (simp add: ok_def)
  have t: "resp_text ?resp \<noteq> []" by (simp add: lit_def)
  show ?thesis
    using send_chat_response[OF a, of bare_lib "JList []" JNull JNull JNull 15] a n t by simp
qed

theorem send_chat_empty_error_body_counterexample:
  "send_chat bare_lib
     (answering (Inr \<lparr>status_code = 500, reason = lit ''Internal Server Error'',
                      resp_text = [], resp_json = Inl (lit ''Expecting value'')\<rparr>))
     (JList []) JNull JNull JNull 15
    = Inl (RuntimeError (lit ''Groq API error: 500 Internal Server Error''))
   \<and> lit ''Groq API error: 500 Internal Server Error'' \<noteq> lit ''Groq API error: '' @ []
   \<and> \<not> success_status \<lparr>status_code = 302, reason = lit ''Found'',
                          resp_text = lit ''<html>moved</html>'',
                          resp_json = Inl (lit ''Expecting value'')\<rparr>
   \<and> send_chat bare_lib
        (answering (Inr \<lparr>status_code = 302, reason = lit ''Found'',
                         resp_text = lit ''<html>moved</html>'',
                         resp_json = Inl (lit ''Expecting value'')\<rparr>))
        (JList []) JNull JNull JNull 15
       = Inl (RuntimeError (lit ''Failed to parse Groq response as JSON: '' @ lit ''Expecting value''
                            @ lit ''; raw: '' @ lit ''<html>moved</html>''))"
  by (simp add: send_chat_def check_response_def sbind_def Let_def py_str_def answering_def
      ok_def success_status_def str_int_500) (simp add: lit_def)

section \<open>Command-line entry points\<close>

text \<open>
  Once the prompt has been read, \<open>main\<close> ends in one of two ways: it returns, or it prints
  the error and exits with code 2. Every failure of the API client or of the response
  processor is of the second kind.
\<close>

lemma main_after_prompt:
  assumes "given (prompt_file args) \<longrightarrow> (\<exists>t. read_text (the (prompt_file args)) s = Inr t)"
  shows "fst (main lib env utcnow args s) = Returned \<or> fst (main lib env utcnow args s) = SystemExit 2"
proof -
  have "\<exists>p.
    (if given (prompt_file args)
     then sbind (read_text (the (prompt_file args)) s) (\<lambda>txt. Inr (strip txt))
     else Inr (if given (prompt args) then the (prompt args) else DEFAULT_PROMPT)) = Inr p"
    using assms by (auto simp: sbind_def)
  then obtain p where p:
    "(if given (prompt_file args)
      then sbind (read_text (the (prompt_file args)) s) (\<lambda>txt. Inr (strip txt))
      else Inr (if given (prompt args) then the (prompt args) else DEFAULT_PROMPT)) = Inr p"
    by blast
  show ?thesis
    unfolding main_def p by (simp add: Let_def split: sum.splits option.splits)
qed

lemma main_api_error:
  assumes "\<not> given (prompt_file args)" and "\<forall>req. post env req = Inl e"
  shows "fst (main lib env utcnow args s) = SystemExit 2"
    and "stdout (snd (main lib env utcnow args s))
           = stdout s @ [lit ''Sending request to Groq...'', lit ''Error: '' @ str_exn lib e]"
  using assms by (simp_all add: main_def send_chat_def sbind_def Let_def print_def)

text \<open>A certificate named on the command line that does not exist ends \<open>setup_certs.py\<close> with code 2.\<close>

lemma certs_main_missing_cert:
  assumes "given (zscaler args)" and "\<not> exists_path s (path_str lib (the (zscaler args)))"
  shows "fst (certs_main lib env args s) = SystemExit 2"
  using assms by (simp add: certs_main_def Let_def)

text \<open>
  C6. A prompt file that does not exist is read before the \<open>try\<close> block: the exception
  reaches the interpreter, the program prints no \<open>Error:\<close> line, and the exit status
  is 1, not 2.
\<close>

theorem main_missing_prompt_file:
  "fst (main lib env utcnow
          \<lparr>prompt = None, prompt_file = Some (lit ''prompt.txt''), out_file = None,
            temperature = FLOAT_0_2, max_tokens = 800, model = None\<rparr>
          \<lparr>locate = loc, files = Map.empty, blocked = bl, stdout = []\<rparr>) = Uncaught FileNotFoundError
   \<and> exit_status (fst (main lib env utcnow
          \<lparr>prompt = None, prompt_file = Some (lit ''prompt.txt''), out_file = None,
            temperature = FLOAT_0_2, max_tokens = 800, model = None\<rparr>
          \<lparr>locate = loc, files = Map.empty, blocked = bl, stdout = []\<rparr>)) = 1
   \<and> stdout (snd (main lib env utcnow
          \<lparr>prompt = None, prompt_file = Some (lit ''prompt.txt''), out_file = None,
            temperature = FLOAT_0_2, max_tokens = 800, model = None\<rparr>
          \<lparr>locate = loc, files = Map.empty, blocked = bl, stdout = []\<rparr>)) = []"
  by (simp add: main_def read_text_def file_at_def sbind_def given_def lit_def)

section \<open>HTTP front-end\<close>

text \<open>
  C9. When the arguments have been read from the request body and the call of the API
  client raises, the view returns the JSON body with \<open>error\<close> and \<open>details\<close>, the latter
  the text of the exception, and the status 500.
\<close>

theorem summarize_api_failure:
  assumes "summarize_args env (if truthy req then req else JDict []) = Inr (p, t, mt, md)"
    and "send_chat lib env (build_messages p) md t mt 15 = Inl e"
  shows "summarize lib env req =
           Reply (JDict [(lit ''error'', JStr (lit ''Failed to call Groq API'')),
                         (lit ''details'', JStr (str_exn lib e))]) 500"
  using assms by (simp add: summarize_def sbind_def Let_def)

text \<open>A failure while the gist is read out of the response is caught in the same way.\<close>

lemma summarize_replies:
  assumes "summarize_args env (if truthy req then req else JDict []) = Inr a"
  shows "\<exists>body code. summarize lib env req = Reply body code"
  using assms by (cases a) (auto simp: summarize_def Let_def split: sum.splits)

theorem summarize_api_failure_witness:
  "summarize_args (answering (Inl (RequestException (lit ''timed out''))))
       (if truthy (JDict [(lit ''prompt'', JStr (lit ''Summarize X''))])
        then JDict [(lit ''prompt'', JStr (lit ''Summarize X''))] else JDict [])
     = Inr (JStr (lit ''Summarize X''), JFloat FLOAT_0_2, JInt 800, JStr (lit ''openai/gpt-oss-20b''))
   \<and> send_chat bare_lib (answering (Inl (RequestException (lit ''timed out''))))
        (build_messages (JStr (lit ''Summarize X''))) (JStr (lit ''openai/gpt-oss-20b''))
        (JFloat FLOAT_0_2) (JInt 800) 15
     = Inl (RequestException (lit ''timed out''))
   \<and> summarize bare_lib (answering (Inl (RequestException (lit ''timed out''))))
        (JDict [(lit ''prompt'', JStr (lit ''Summarize X''))])
     = Reply (JDict [(lit ''error'', JStr (lit ''Failed to call Groq API'')),
                     (lit ''details'', JStr (lit ''timed out''))]) 500"
proof -
  let ?env = "answering (Inl (RequestException (lit ''timed out'')))"
  let ?req = "JDict [(lit ''prompt'', JStr (lit ''Summarize X''))]"
  have a: "summarize_args ?env (if truthy ?req then ?req else JDict [])
     = Inr (JStr (lit ''Summarize X''), JFloat FLOAT_0_2, JInt 800, JStr (lit ''openai/gpt-oss-20b''))"
    by (simp add: summarize_args_def sbind_def answering_def) (simp add: lit_def)
  have b: "send_chat bare_lib ?env (build_messages (JStr (lit ''Summarize X'')))
        (JStr (lit ''openai/gpt-oss-20b'')) (JFloat FLOAT_0_2) (JInt 800) 15
     = Inl (RequestException (lit ''timed out''))"
    by (simp add: send_chat_def sbind_def answering_def Let_def)
  have c: "str_exn bare_lib (RequestException (lit ''timed out'')) = lit ''timed out''"
    by (simp add: str_exn_def)
  show ?thesis
    using summarize_api_failure[OF a b] a b c by simp
qed

end
